theory Spec2Isabelle
  imports Main
begin

section \<open>Python values\<close>

subsection \<open>Strings\<close>

text \<open>
  A Python \<open>str\<close> is a sequence of Unicode code points. It is modelled as a list of
  natural numbers, one per code point, so that the column names of the CSV importer
  (which are Chinese) and the whitespace that \<open>str.strip()\<close> removes are the ones of the
  source. A Python string can hold a lone surrogate (JSON \<open>"\ud800"\<close> parses to one).
\<close>

type_synonym pystr = "nat list"

text \<open>
  The Unicode scalar values: the code points that are not surrogates. Only a string of
  scalar values can be encoded as UTF-8, which is how text reaches the database.
\<close>

definition scalar_value :: "nat \<Rightarrow> bool" where
  "scalar_value c \<longleftrightarrow> c < 55296 \<or> 57343 < c \<and> c < 1114112"

definition encodable :: "pystr \<Rightarrow> bool" where
  "encodable s = list_all scalar_value s"

definition ustr :: "string \<Rightarrow> pystr" where
  "ustr s = map of_char s"

text \<open>The code points for which \<open>str.isspace()\<close> holds; \<open>strip()\<close> removes exactly these.\<close>

definition isspace :: "nat \<Rightarrow> bool" where
  "isspace c \<longleftrightarrow>
     (9 \<le> c \<and> c \<le> 13) \<or> (28 \<le> c \<and> c \<le> 32) \<or> c = 133 \<or> c = 160 \<or> c = 5760 \<or>
     (8192 \<le> c \<and> c \<le> 8202) \<or> c = 8232 \<or> c = 8233 \<or> c = 8239 \<or> c = 8287 \<or> c = 12288"

definition strip :: "pystr \<Rightarrow> pystr" where
  "strip s = rev (dropWhile isspace (rev (dropWhile isspace s)))"

text \<open>\<open>str(n)\<close> of an integer: its decimal digits, with a minus sign when negative.\<close>

fun dec_nat :: "nat \<Rightarrow> pystr" where
  "dec_nat n = (if n < 10 then [48 + n] else dec_nat (n div 10) @ [48 + n mod 10])"

declare dec_nat.simps [simp del]

definition dec :: "int \<Rightarrow> pystr" where
  "dec i = (if i < 0 then 45 # dec_nat (nat (- i)) else dec_nat (nat i))"

subsection \<open>Parsed JSON\<close>

text \<open>
  What \<open>request.get_json()\<close> returns: \<open>None\<close>, a bool, an int, a str, a list or a dict.
  A dict is kept as an association list in which the first binding of a key is the one
  that counts. JSON numbers with a fractional part (Python floats) are left out.
\<close>

datatype json =
    JNull
  | JBool bool
  | JInt int
  | JStr pystr
  | JList "json list"
  | JDict "(pystr \<times> json) list"

text \<open>Python's truth value of an object, as used by \<open>not x\<close>, \<open>x and y\<close>, \<open>bool(x)\<close>.\<close>

fun truthy :: "json \<Rightarrow> bool" where
  "truthy JNull = False"
| "truthy (JBool b) = b"
| "truthy (JInt i) = (i \<noteq> 0)"
| "truthy (JStr s) = (s \<noteq> [])"
| "truthy (JList xs) = (xs \<noteq> [])"
| "truthy (JDict kvs) = (kvs \<noteq> [])"

text \<open>\<open>d.get(k, default)\<close>; \<open>d.get(k)\<close> is \<open>dict_get d k JNull\<close>.\<close>

definition dict_get :: "(pystr \<times> json) list \<Rightarrow> pystr \<Rightarrow> json \<Rightarrow> json" where
  "dict_get d k dflt = (case map_of d k of None \<Rightarrow> dflt | Some v \<Rightarrow> v)"

text \<open>The exceptions that the handlers can raise without catching them.\<close>

datatype pyexn =
    AttributeError | KeyError | OverflowError | UnicodeEncodeError
  | ProgrammingError | OperationalError | IntegrityError

text \<open>\<open>m.get(k)\<close> on an arbitrary value: only a dict has the method.\<close>

definition obj_get :: "json \<Rightarrow> pystr \<Rightarrow> pyexn + json" where
  "obj_get m k = (case m of JDict d \<Rightarrow> Inr (dict_get d k JNull) | _ \<Rightarrow> Inl AttributeError)"

text \<open>\<open>m[k]\<close> on a value whose \<open>get\<close> has already succeeded.\<close>

definition obj_index :: "json \<Rightarrow> pystr \<Rightarrow> pyexn + json" where
  "obj_index m k =
     (case m of
        JDict d \<Rightarrow> (case map_of d k of None \<Rightarrow> Inl KeyError | Some v \<Rightarrow> Inr v)
      | _ \<Rightarrow> Inl AttributeError)"

section \<open>The store\<close>

text \<open>
  The two tables that \<open>init_db\<close> creates. Both primary keys are \<open>AUTOINCREMENT\<close>: the
  store keeps, per table, the largest id it ever handed out and never reuses an id; the
  largest id there is is \<open>max_rowid\<close>. \<open>is_favorite\<close> is an \<open>INTEGER\<close> column, so it is an
  integer here. Resource limits (memory, SQLite's bound of a gigabyte on a string or a
  row) are not modelled.
\<close>

record contact_row =
  c_id :: nat
  c_name :: pystr
  c_address :: "pystr option"
  c_is_favorite :: int

record method_row =
  m_id :: nat
  m_contact_id :: nat
  m_type :: pystr
  m_value :: pystr

record store =
  contacts :: "contact_row list"
  contact_methods :: "method_row list"
  contacts_seq :: nat
  methods_seq :: nat

definition max_rowid :: nat where
  "max_rowid = 2 ^ 63 - 1"

definition init_db :: store where
  "init_db = \<lparr>contacts = [], contact_methods = [], contacts_seq = 0, methods_seq = 0\<rparr>"

text \<open>
  A connection, as \<open>sqlite3.connect(DB_PATH)\<close> opens it. SQLite enforces foreign keys
  (and so runs \<open>ON DELETE CASCADE\<close>) only on a connection on which
  \<open>PRAGMA foreign_keys = ON\<close> was issued; a new connection has it off, and no handler
  of the source issues the pragma.
\<close>

record connection =
  foreign_keys :: bool
  db :: store

definition connect :: "store \<Rightarrow> connection" where
  "connect s = \<lparr>foreign_keys = False, db = s\<rparr>"

definition commit :: "connection \<Rightarrow> store" where
  "commit conn = db conn"

subsection \<open>The SQL statements of the source\<close>

text \<open>
  Binding the parameters of a statement, in their order; the first one that cannot be
  bound raises. An int must fit SQLite's 64-bit integer, a str must be encodable as
  UTF-8, \<open>None\<close> is \<open>NULL\<close>.
\<close>

definition bind_id :: "nat \<Rightarrow> pyexn + nat" where
  "bind_id n = (if n < 2 ^ 63 then Inr n else Inl OverflowError)"

definition bind_str :: "pystr \<Rightarrow> pyexn + pystr" where
  "bind_str s = (if encodable s then Inr s else Inl UnicodeEncodeError)"

definition bind_opt :: "pystr option \<Rightarrow> pyexn + pystr option" where
  "bind_opt a =
     (case a of
        None \<Rightarrow> Inr None
      | Some s \<Rightarrow> (if encodable s then Inr (Some s) else Inl UnicodeEncodeError))"

text \<open>
  Binding a JSON value to a parameter of a \<open>TEXT\<close> column: a str is stored as it is,
  an int (and a bool, which is an int) as its decimal text when it fits 64 bits, \<open>None\<close>
  as \<open>NULL\<close>; a list or a dict cannot be bound.
\<close>

definition bind_text :: "json \<Rightarrow> pyexn + pystr option" where
  "bind_text j =
     (case j of
        JNull \<Rightarrow> Inr None
      | JBool b \<Rightarrow> Inr (Some (dec (if b then 1 else 0)))
      | JInt i \<Rightarrow>
          (if - (2 ^ 63) \<le> i \<and> i < 2 ^ 63 then Inr (Some (dec i)) else Inl OverflowError)
      | JStr s \<Rightarrow> (if encodable s then Inr (Some s) else Inl UnicodeEncodeError)
      | JList _ \<Rightarrow> Inl ProgrammingError
      | JDict _ \<Rightarrow> Inl ProgrammingError)"

text \<open>
  \<open>INSERT INTO contacts (name, address) VALUES (?, ?)\<close>, with \<open>cursor.lastrowid\<close>. Once the
  table has handed out \<open>max_rowid\<close> the insert fails (\<open>database or disk is full\<close>).
\<close>

definition sql_insert_contact ::
  "connection \<Rightarrow> pystr \<Rightarrow> pystr option \<Rightarrow> pyexn + connection \<times> nat" where
  "sql_insert_contact conn name address =
     (case bind_str name of
        Inl e \<Rightarrow> Inl e
      | Inr name' \<Rightarrow>
          (case bind_opt address of
             Inl e \<Rightarrow> Inl e
           | Inr address' \<Rightarrow>
               (let s = db conn
                in if max_rowid \<le> contacts_seq s then Inl OperationalError
                   else let i = Suc (contacts_seq s);
                            row = \<lparr>c_id = i, c_name = name', c_address = address',
                                   c_is_favorite = 0\<rparr>
                        in Inr (conn\<lparr>db := s\<lparr>contacts := contacts s @ [row],
                                                contacts_seq := i\<rparr>\<rparr>, i))))"

text \<open>
  \<open>INSERT INTO contact_methods (contact_id, method_type, value) VALUES (?, ?, ?)\<close>.
  After the binding, the new row id is taken, then the two \<open>NOT NULL\<close> text columns are
  checked, then the foreign key, the last only when the connection enforces foreign
  keys.
\<close>

definition sql_insert_method :: "connection \<Rightarrow> nat \<Rightarrow> json \<Rightarrow> json \<Rightarrow> pyexn + connection" where
  "sql_insert_method conn cid t v =
     (case bind_id cid of
        Inl e \<Rightarrow> Inl e
      | Inr cid' \<Rightarrow>
          (case bind_text t of
             Inl e \<Rightarrow> Inl e
           | Inr bt \<Rightarrow>
               (case bind_text v of
                  Inl e \<Rightarrow> Inl e
                | Inr bv \<Rightarrow>
                    (let s = db conn
                     in if max_rowid \<le> methods_seq s then Inl OperationalError
                        else case (bt, bv) of
                          (Some t', Some v') \<Rightarrow>
                            (let i = Suc (methods_seq s);
                                 row = \<lparr>m_id = i, m_contact_id = cid', m_type = t',
                                        m_value = v'\<rparr>
                             in if foreign_keys conn \<and> cid' \<notin> c_id ` set (contacts s)
                                then Inl IntegrityError
                                else Inr (conn\<lparr>db := s\<lparr>contact_methods :=
                                                            contact_methods s @ [row],
                                                         methods_seq := i\<rparr>\<rparr>))
                        | _ \<Rightarrow> Inl IntegrityError))))"

text \<open>\<open>SELECT 1 FROM contacts WHERE id = ?\<close> with \<open>fetchone()\<close>: the row \<open>(1,)\<close> or \<open>None\<close>.\<close>

definition sql_select_exists :: "connection \<Rightarrow> nat \<Rightarrow> pyexn + int list option" where
  "sql_select_exists conn cid =
     (case bind_id cid of
        Inl e \<Rightarrow> Inl e
      | Inr cid' \<Rightarrow>
          Inr (case filter (\<lambda>c. c_id c = cid') (contacts (db conn)) of
                 [] \<Rightarrow> None
               | _ # _ \<Rightarrow> Some [1]))"

text \<open>\<open>SELECT is_favorite FROM contacts WHERE id = ?\<close> with \<open>fetchone()\<close>.\<close>

definition sql_select_favorite :: "connection \<Rightarrow> nat \<Rightarrow> pyexn + int list option" where
  "sql_select_favorite conn cid =
     (case bind_id cid of
        Inl e \<Rightarrow> Inl e
      | Inr cid' \<Rightarrow>
          Inr (case filter (\<lambda>c. c_id c = cid') (contacts (db conn)) of
                 [] \<Rightarrow> None
               | c # _ \<Rightarrow> Some [c_is_favorite c]))"

text \<open>\<open>UPDATE contacts SET name = ?, address = ? WHERE id = ?\<close>.\<close>

definition sql_update_contact ::
  "connection \<Rightarrow> pystr \<Rightarrow> pystr option \<Rightarrow> nat \<Rightarrow> pyexn + connection" where
  "sql_update_contact conn name address cid =
     (case bind_str name of
        Inl e \<Rightarrow> Inl e
      | Inr name' \<Rightarrow>
          (case bind_opt address of
             Inl e \<Rightarrow> Inl e
           | Inr address' \<Rightarrow>
               (case bind_id cid of
                  Inl e \<Rightarrow> Inl e
                | Inr cid' \<Rightarrow>
                    (let s = db conn
                     in Inr (conn\<lparr>db := s\<lparr>contacts :=
                          map (\<lambda>c. if c_id c = cid'
                                    then c\<lparr>c_name := name', c_address := address'\<rparr> else c)
                              (contacts s)\<rparr>\<rparr>)))))"

text \<open>\<open>UPDATE contacts SET is_favorite = ? WHERE id = ?\<close>.\<close>

definition sql_update_favorite :: "connection \<Rightarrow> int \<Rightarrow> nat \<Rightarrow> pyexn + connection" where
  "sql_update_favorite conn fav cid =
     (if - (2 ^ 63) \<le> fav \<and> fav < 2 ^ 63 then
        (case bind_id cid of
           Inl e \<Rightarrow> Inl e
         | Inr cid' \<Rightarrow>
             (let s = db conn
              in Inr (conn\<lparr>db := s\<lparr>contacts :=
                   map (\<lambda>c. if c_id c = cid' then c\<lparr>c_is_favorite := fav\<rparr> else c)
                       (contacts s)\<rparr>\<rparr>)))
      else Inl OverflowError)"

text \<open>\<open>DELETE FROM contact_methods WHERE contact_id = ?\<close>.\<close>

definition sql_delete_methods :: "connection \<Rightarrow> nat \<Rightarrow> pyexn + connection" where
  "sql_delete_methods conn cid =
     (case bind_id cid of
        Inl e \<Rightarrow> Inl e
      | Inr cid' \<Rightarrow>
          (let s = db conn
           in Inr (conn\<lparr>db := s\<lparr>contact_methods :=
                filter (\<lambda>m. m_contact_id m \<noteq> cid') (contact_methods s)\<rparr>\<rparr>)))"

text \<open>
  \<open>DELETE FROM contacts WHERE id = ?\<close>, with \<open>cursor.rowcount\<close>. The rows of
  \<open>contact_methods\<close> that reference a deleted contact go with it only on a connection
  that enforces foreign keys.
\<close>

definition sql_delete_contact :: "connection \<Rightarrow> nat \<Rightarrow> pyexn + connection \<times> nat" where
  "sql_delete_contact conn cid =
     (case bind_id cid of
        Inl e \<Rightarrow> Inl e
      | Inr cid' \<Rightarrow>
          (let s = db conn;
               rowcount = length (filter (\<lambda>c. c_id c = cid') (contacts s));
               ms = (if foreign_keys conn \<and> 0 < rowcount
                     then filter (\<lambda>m. m_contact_id m \<noteq> cid') (contact_methods s)
                     else contact_methods s)
           in Inr (conn\<lparr>db := s\<lparr>contacts := filter (\<lambda>c. c_id c \<noteq> cid') (contacts s),
                                   contact_methods := ms\<rparr>\<rparr>, rowcount)))"

text \<open>
  \<open>SELECT method_type, value FROM contact_methods WHERE contact_id = ?\<close>, asked for the
  id of a row that was fetched from \<open>contacts\<close>.
\<close>

definition sql_select_methods :: "store \<Rightarrow> nat \<Rightarrow> (pystr \<times> pystr) list" where
  "sql_select_methods s cid =
     map (\<lambda>m. (m_type m, m_value m)) (filter (\<lambda>m. m_contact_id m = cid) (contact_methods s))"

section \<open>The handlers\<close>

text \<open>
  A handler takes the committed store and its request and returns its response and the
  committed store after it. A response is the JSON payload of a success, or an error:
  status 400 is \<open>ValidationError\<close> (\<open>ParseError\<close> for the importer's catch-all), 404 is
  \<open>NotFoundError\<close>, and an exception that no handler catches is \<open>InternalError\<close> (status
  500). A handler that ends without reaching \<open>conn.commit()\<close> leaves the committed store
  as it was.
\<close>

datatype reason =
    EmptyBody | EmptyName | NoMethods | BadMethod | MethodsNotList
  | NoFile | EmptyFilename | NotCsv | MissingColumns

datatype error = ValidationError reason | NotFoundError | ParseError | InternalError pyexn

record contact_view =
  v_id :: nat
  v_name :: pystr
  v_address :: "pystr option"
  v_is_favorite :: bool
  v_methods :: "json list"

text \<open>\<open>delete_contact\<close>\<close>

definition delete_contact :: "store \<Rightarrow> nat \<Rightarrow> (error + unit) \<times> store" where
  "delete_contact s contact_id =
     (let conn = connect s
      in case sql_delete_contact conn contact_id of
           Inl e \<Rightarrow> (Inl (InternalError e), s)
         | Inr (conn', rowcount) \<Rightarrow>
             (let s' = commit conn';
                  deleted = (0 < rowcount)
              in if \<not> deleted then (Inl NotFoundError, s') else (Inr (), s')))"

text \<open>\<open>toggle_favorite\<close>\<close>

definition toggle_favorite :: "store \<Rightarrow> nat \<Rightarrow> (error + bool) \<times> store" where
  "toggle_favorite s contact_id =
     (let conn = connect s
      in case sql_select_favorite conn contact_id of
           Inl e \<Rightarrow> (Inl (InternalError e), s)
         | Inr None \<Rightarrow> (Inl NotFoundError, s)
         | Inr (Some row) \<Rightarrow>
             (if row = [] then (Inl NotFoundError, s)
              else let new_status = (if hd row = 1 then 0 else 1 :: int)
                   in case sql_update_favorite conn new_status contact_id of
                        Inl e \<Rightarrow> (Inl (InternalError e), s)
                      | Inr conn' \<Rightarrow> (Inr (new_status \<noteq> 0), commit conn')))"

text \<open>
  \<open>get_contact_with_methods\<close>, \<open>get_contacts\<close> and \<open>get_favorites\<close>: the read side. The
  favorite flag of a view is \<open>bool(is_favorite)\<close>.
\<close>

definition get_contact_with_methods :: "store \<Rightarrow> contact_row \<Rightarrow> contact_view" where
  "get_contact_with_methods s contact_row =
     (let methods = sql_select_methods s (c_id contact_row)
      in \<lparr>v_id = c_id contact_row, v_name = c_name contact_row,
          v_address = c_address contact_row,
          v_is_favorite = (c_is_favorite contact_row \<noteq> 0),
          v_methods = map (\<lambda>(t, v). JDict [(ustr ''type'', JStr t), (ustr ''value'', JStr v)])
                          methods\<rparr>)"

definition get_contacts :: "store \<Rightarrow> contact_view list" where
  "get_contacts s = map (get_contact_with_methods s) (contacts s)"

definition get_favorites :: "store \<Rightarrow> contact_view list" where
  "get_favorites s =
     map (get_contact_with_methods s) (filter (\<lambda>c. c_is_favorite c = 1) (contacts s))"

text \<open>
  The fields of a request body. \<open>data.get('name', '').strip()\<close> raises on a name that is
  not a str. \<open>str(raw_address)\<close> never raises; how Python prints a list or a dict is not
  modelled and is the parameter \<open>repr\<close>.
\<close>

definition get_name :: "(pystr \<times> json) list \<Rightarrow> pyexn + pystr" where
  "get_name d =
     (case dict_get d (ustr ''name'') (JStr []) of
        JStr n \<Rightarrow> Inr (strip n)
      | _ \<Rightarrow> Inl AttributeError)"

definition py_str :: "(json \<Rightarrow> pystr) \<Rightarrow> json \<Rightarrow> pystr" where
  "py_str repr j =
     (case j of
        JNull \<Rightarrow> ustr ''None''
      | JBool b \<Rightarrow> (if b then ustr ''True'' else ustr ''False'')
      | JInt i \<Rightarrow> dec i
      | JStr s \<Rightarrow> s
      | _ \<Rightarrow> repr j)"

definition get_address :: "(json \<Rightarrow> pystr) \<Rightarrow> (pystr \<times> json) list \<Rightarrow> pystr option" where
  "get_address repr d =
     (let raw_address = dict_get d (ustr ''address'') JNull
      in if raw_address \<noteq> JNull then Some (strip (py_str repr raw_address)) else None)"

text \<open>The validation loop of \<open>add_contact\<close>: the first entry that fails ends it.\<close>

fun check_methods :: "json list \<Rightarrow> error option" where
  "check_methods [] = None"
| "check_methods (m # ms) =
     (case obj_get m (ustr ''type'') of
        Inl e \<Rightarrow> Some (InternalError e)
      | Inr t \<Rightarrow>
          (if \<not> truthy t then Some (ValidationError BadMethod)
           else case obj_get m (ustr ''value'') of
                  Inl e \<Rightarrow> Some (InternalError e)
                | Inr v \<Rightarrow>
                    (if \<not> truthy v then Some (ValidationError BadMethod)
                     else check_methods ms)))"

text \<open>The insertion loop of \<open>add_contact\<close>: every entry is inserted.\<close>

fun insert_methods :: "connection \<Rightarrow> nat \<Rightarrow> json list \<Rightarrow> pyexn + connection" where
  "insert_methods conn contact_id [] = Inr conn"
| "insert_methods conn contact_id (m # ms) =
     (case obj_index m (ustr ''type'') of
        Inl e \<Rightarrow> Inl e
      | Inr t \<Rightarrow>
          (case obj_index m (ustr ''value'') of
             Inl e \<Rightarrow> Inl e
           | Inr v \<Rightarrow>
               (case sql_insert_method conn contact_id t v of
                  Inl e \<Rightarrow> Inl e
                | Inr conn' \<Rightarrow> insert_methods conn' contact_id ms)))"

text \<open>\<open>add_contact\<close>\<close>

definition add_contact :: "(json \<Rightarrow> pystr) \<Rightarrow> store \<Rightarrow> json \<Rightarrow> (error + contact_view) \<times> store" where
  "add_contact repr s data =
     (if \<not> truthy data then (Inl (ValidationError EmptyBody), s)
      else case data of
        JDict d \<Rightarrow>
          (case get_name d of
             Inl e \<Rightarrow> (Inl (InternalError e), s)
           | Inr name \<Rightarrow>
               (let address = get_address repr d;
                    methods = dict_get d (ustr ''methods'') (JList [])
                in if name = [] then (Inl (ValidationError EmptyName), s)
                   else case methods of
                     JList ms \<Rightarrow>
                       (if length ms = 0 then (Inl (ValidationError NoMethods), s)
                        else case check_methods ms of
                          Some e \<Rightarrow> (Inl e, s)
                        | None \<Rightarrow>
                            (let conn = connect s
                             in case sql_insert_contact conn name address of
                                  Inl e \<Rightarrow> (Inl (InternalError e), s)
                                | Inr (conn1, contact_id) \<Rightarrow>
                                    (case insert_methods conn1 contact_id ms of
                                       Inl e \<Rightarrow> (Inl (InternalError e), s)
                                     | Inr conn2 \<Rightarrow>
                                         (Inr \<lparr>v_id = contact_id, v_name = name,
                                               v_address = address, v_is_favorite = False,
                                               v_methods = ms\<rparr>,
                                          commit conn2))))
                   | _ \<Rightarrow> (Inl (ValidationError NoMethods), s)))
      | _ \<Rightarrow> (Inl (InternalError AttributeError), s))"

text \<open>
  The insertion loop of \<open>update_contact\<close>: an entry is inserted when both
  \<open>m.get('type')\<close> and \<open>m.get('value')\<close> are true, and passed over otherwise.
\<close>

fun replace_methods :: "connection \<Rightarrow> nat \<Rightarrow> json list \<Rightarrow> pyexn + connection" where
  "replace_methods conn contact_id [] = Inr conn"
| "replace_methods conn contact_id (m # ms) =
     (case obj_get m (ustr ''type'') of
        Inl e \<Rightarrow> Inl e
      | Inr t \<Rightarrow>
          (if truthy t then
             (case obj_get m (ustr ''value'') of
                Inl e \<Rightarrow> Inl e
              | Inr v \<Rightarrow>
                  (if truthy v then
                     (case obj_index m (ustr ''type'') of
                        Inl e \<Rightarrow> Inl e
                      | Inr t' \<Rightarrow>
                          (case obj_index m (ustr ''value'') of
                             Inl e \<Rightarrow> Inl e
                           | Inr v' \<Rightarrow>
                               (case sql_insert_method conn contact_id t' v' of
                                  Inl e \<Rightarrow> Inl e
                                | Inr conn' \<Rightarrow> replace_methods conn' contact_id ms)))
                   else replace_methods conn contact_id ms))
           else replace_methods conn contact_id ms))"

text \<open>
  \<open>update_contact\<close>. The favorite flag of the response is \<open>bool(exists)\<close>, where
  \<open>exists\<close> is the row that the existence query fetched: the truth value of a tuple.
\<close>

definition update_contact ::
  "(json \<Rightarrow> pystr) \<Rightarrow> store \<Rightarrow> nat \<Rightarrow> json \<Rightarrow> (error + contact_view) \<times> store" where
  "update_contact repr s contact_id data =
     (if \<not> truthy data then (Inl (ValidationError EmptyBody), s)
      else case data of
        JDict d \<Rightarrow>
          (case get_name d of
             Inl e \<Rightarrow> (Inl (InternalError e), s)
           | Inr name \<Rightarrow>
               (let address = get_address repr d;
                    methods = dict_get d (ustr ''methods'') (JList [])
                in if name = [] then (Inl (ValidationError EmptyName), s)
                   else case methods of
                     JList ms \<Rightarrow>
                       (let conn = connect s
                        in case sql_select_exists conn contact_id of
                             Inl e \<Rightarrow> (Inl (InternalError e), s)
                           | Inr None \<Rightarrow> (Inl NotFoundError, s)
                           | Inr (Some exists) \<Rightarrow>
                               (if exists = [] then (Inl NotFoundError, s)
                                else case sql_update_contact conn name address contact_id of
                                  Inl e \<Rightarrow> (Inl (InternalError e), s)
                                | Inr conn1 \<Rightarrow>
                                    (case sql_delete_methods conn1 contact_id of
                                       Inl e \<Rightarrow> (Inl (InternalError e), s)
                                     | Inr conn2 \<Rightarrow>
                                         (case replace_methods conn2 contact_id ms of
                                            Inl e \<Rightarrow> (Inl (InternalError e), s)
                                          | Inr conn3 \<Rightarrow>
                                              (Inr \<lparr>v_id = contact_id, v_name = name,
                                                    v_address = address,
                                                    v_is_favorite = (exists \<noteq> []),
                                                    v_methods = ms\<rparr>,
                                               commit conn3)))))
                   | _ \<Rightarrow> (Inl (ValidationError MethodsNotList), s)))
      | _ \<Rightarrow> (Inl (InternalError AttributeError), s))"

subsection \<open>The CSV importer\<close>

text \<open>
  The upload of \<open>import_contacts\<close> is taken after decoding and after the \<open>csv\<close> module has
  split it into records: \<open>Csv fieldnames records\<close> holds \<open>reader.fieldnames\<close> (\<open>None\<close> for a
  file without a header) and the records that follow the header. The reader splits a
  record when the loop asks for it: \<open>Truncated fieldnames records\<close> is an upload on which
  it raises after the header and these records. \<open>Unreadable\<close> is an upload on which
  decoding or the splitting of the header raises. The request carries no file part
  (\<open>None\<close>) or a filename and the content.
\<close>

datatype csv =
    Unreadable
  | Csv "pystr list option" "pystr list list"
  | Truncated "pystr list option" "pystr list list"

text \<open>
  \<open>filename.lower()\<close>. Only the letters A to Z are mapped: no other code point has a
  lower-case form that contains one of the characters of \<open>.csv\<close>, which is all that the
  test on the suffix looks at.
\<close>

definition lower :: "pystr \<Rightarrow> pystr" where
  "lower s = map (\<lambda>c. if 65 \<le> c \<and> c \<le> 90 then c + 32 else c) s"

definition endswith :: "pystr \<Rightarrow> pystr \<Rightarrow> bool" where
  "endswith s suffix \<longleftrightarrow> length suffix \<le> length s \<and> drop (length s - length suffix) s = suffix"

text \<open>The four column names: name, phone, email, address.\<close>

definition col_name :: pystr where "col_name = [22995, 21517]"
definition col_phone :: pystr where "col_phone = [30005, 35805]"
definition col_email :: pystr where "col_email = [37038, 31665]"
definition col_address :: pystr where "col_address = [20303, 22336]"

definition required_fields :: "pystr list" where
  "required_fields = [col_name, col_phone, col_email, col_address]"

text \<open>
  \<open>row.get(col)\<close> on the dict that \<open>csv.DictReader\<close> builds from a record: the fields are
  paired with the field names in order, a field name beyond the end of the record gets
  \<open>None\<close>, and of two columns with one name the later one counts.
\<close>

definition row_get :: "pystr list \<Rightarrow> pystr list \<Rightarrow> pystr \<Rightarrow> pystr option" where
  "row_get fieldnames cells col =
     (case map_of (rev (zip fieldnames
                          (map Some cells @ replicate (length fieldnames - length cells) None)))
                  col of
        None \<Rightarrow> None
      | Some v \<Rightarrow> v)"

text \<open>\<open>(row.get(col) or '').strip()\<close>\<close>

definition field :: "pystr list \<Rightarrow> pystr list \<Rightarrow> pystr \<Rightarrow> pystr" where
  "field fieldnames cells col =
     strip (case row_get fieldnames cells col of None \<Rightarrow> [] | Some v \<Rightarrow> v)"

text \<open>
  The three conditional inserts of one row, and the loop over the rows with its running
  count. \<open>DictReader\<close> passes over a record without fields (a blank line).
\<close>

definition insert_if :: "connection \<Rightarrow> nat \<Rightarrow> string \<Rightarrow> pystr \<Rightarrow> pyexn + connection" where
  "insert_if conn contact_id method_type v =
     (if v \<noteq> [] then sql_insert_method conn contact_id (JStr (ustr method_type)) (JStr v)
      else Inr conn)"

fun import_rows ::
  "pystr list \<Rightarrow> connection \<Rightarrow> nat \<Rightarrow> pystr list list \<Rightarrow> pyexn + connection \<times> nat" where
  "import_rows fieldnames conn count [] = Inr (conn, count)"
| "import_rows fieldnames conn count (row # rows) =
     (if row = [] then import_rows fieldnames conn count rows
      else let name = field fieldnames row col_name
           in if name = [] then import_rows fieldnames conn count rows
              else
                (let phone = field fieldnames row col_phone;
                     email = field fieldnames row col_email;
                     address = field fieldnames row col_address
                 in case sql_insert_contact conn name
                           (if address \<noteq> [] then Some address else None) of
                      Inl e \<Rightarrow> Inl e
                    | Inr (conn1, contact_id) \<Rightarrow>
                        (case insert_if conn1 contact_id ''phone'' phone of
                           Inl e \<Rightarrow> Inl e
                         | Inr conn2 \<Rightarrow>
                             (case insert_if conn2 contact_id ''email'' email of
                                Inl e \<Rightarrow> Inl e
                              | Inr conn3 \<Rightarrow>
                                  (case insert_if conn3 contact_id ''address'' address of
                                     Inl e \<Rightarrow> Inl e
                                   | Inr conn4 \<Rightarrow>
                                       import_rows fieldnames conn4 (count + 1) rows)))))"

text \<open>\<open>import_contacts\<close>; its \<open>except Exception\<close> turns every exception into status 400.\<close>

definition import_contacts :: "store \<Rightarrow> (pystr \<times> csv) option \<Rightarrow> (error + nat) \<times> store" where
  "import_contacts s files =
     (case files of
        None \<Rightarrow> (Inl (ValidationError NoFile), s)
      | Some (filename, content) \<Rightarrow>
          (if filename = [] then (Inl (ValidationError EmptyFilename), s)
           else if \<not> endswith (lower filename) (ustr ''.csv'') then (Inl (ValidationError NotCsv), s)
           else case content of
             Unreadable \<Rightarrow> (Inl ParseError, s)
           | Csv fieldnames records \<Rightarrow>
               (let names = (case fieldnames of None \<Rightarrow> [] | Some fs \<Rightarrow> fs)
                in if \<not> set required_fields \<subseteq> set names
                   then (Inl (ValidationError MissingColumns), s)
                   else case import_rows names (connect s) 0 records of
                          Inl e \<Rightarrow> (Inl ParseError, s)
                        | Inr (conn, count) \<Rightarrow> (Inr count, commit conn))
           | Truncated fieldnames records \<Rightarrow>
               (let names = (case fieldnames of None \<Rightarrow> [] | Some fs \<Rightarrow> fs)
                in if \<not> set required_fields \<subseteq> set names
                   then (Inl (ValidationError MissingColumns), s)
                   else case import_rows names (connect s) 0 records of
                          Inl e \<Rightarrow> (Inl ParseError, s)
                        | Inr (conn, count) \<Rightarrow> (Inl ParseError, s))))"

section \<open>Reachable states\<close>

text \<open>
  The states of the store that the handlers can produce from the empty database, with
  any requests in any order.
\<close>

inductive reachable :: "store \<Rightarrow> bool" where
  reach_init: "reachable init_db"
| reach_add: "reachable s \<Longrightarrow> reachable (snd (add_contact repr s data))"
| reach_update: "reachable s \<Longrightarrow> reachable (snd (update_contact repr s contact_id data))"
| reach_delete: "reachable s \<Longrightarrow> reachable (snd (delete_contact s contact_id))"
| reach_toggle: "reachable s \<Longrightarrow> reachable (snd (toggle_favorite s contact_id))"
| reach_import: "reachable s \<Longrightarrow> reachable (snd (import_contacts s files))"

text \<open>No row of \<open>contact_methods\<close> without its contact.\<close>

definition no_orphans :: "store \<Rightarrow> bool" where
  "no_orphans s \<longleftrightarrow>
     list_all (\<lambda>m. m_contact_id m \<in> c_id ` set (contacts s)) (contact_methods s)"

text \<open>
  What the schema and the handlers keep true of the store: ids are unique and were
  handed out by the table's counter, which is no more than \<open>max_rowid\<close>, and
  \<open>is_favorite\<close> is 0 or 1.
\<close>

definition wf_store :: "store \<Rightarrow> bool" where
  "wf_store s \<longleftrightarrow>
     contacts_seq s \<le> max_rowid \<and> methods_seq s \<le> max_rowid \<and>
     distinct (map c_id (contacts s)) \<and>
     (\<forall>c \<in> set (contacts s).
        c_id c \<le> contacts_seq s \<and> (c_is_favorite c = 0 \<or> c_is_favorite c = 1)) \<and>
     distinct (map m_id (contact_methods s)) \<and>
     (\<forall>m \<in> set (contact_methods s).
        m_id m \<le> methods_seq s \<and> m_contact_id m \<le> contacts_seq s)"

section \<open>Notions used in the statements\<close>

subsection \<open>Request bodies\<close>

text \<open>
  A method entry of the data model is a JSON object whose \<open>type\<close> and \<open>value\<close>, when
  present, are strings without lone surrogates (or \<open>null\<close>). It is complete when both are
  non-empty, which is what the handlers test with \<open>m.get('type')\<close> and \<open>m.get('value')\<close>.
\<close>

definition is_field :: "json \<Rightarrow> bool" where
  "is_field j = (case j of JNull \<Rightarrow> True | JStr s \<Rightarrow> encodable s | _ \<Rightarrow> False)"

definition is_object :: "json \<Rightarrow> bool" where
  "is_object m = (case m of JDict _ \<Rightarrow> True | _ \<Rightarrow> False)"

definition entry_type :: "json \<Rightarrow> json" where
  "entry_type m = (case m of JDict d \<Rightarrow> dict_get d (ustr ''type'') JNull | _ \<Rightarrow> JNull)"

definition entry_value :: "json \<Rightarrow> json" where
  "entry_value m = (case m of JDict d \<Rightarrow> dict_get d (ustr ''value'') JNull | _ \<Rightarrow> JNull)"

definition is_entry :: "json \<Rightarrow> bool" where
  "is_entry m \<longleftrightarrow> is_object m \<and> is_field (entry_type m) \<and> is_field (entry_value m)"

definition complete :: "json \<Rightarrow> bool" where
  "complete m \<longleftrightarrow> truthy (entry_type m) \<and> truthy (entry_value m)"

text \<open>The (type, value) pair that a complete entry is stored as.\<close>

definition text_of :: "json \<Rightarrow> pystr" where
  "text_of j = (case j of JStr s \<Rightarrow> s | _ \<Rightarrow> [])"

definition entry_pair :: "json \<Rightarrow> pystr \<times> pystr" where
  "entry_pair m = (text_of (entry_type m), text_of (entry_value m))"

text \<open>
  The name of a request body whose \<open>name\<close>, when present, is a string: trimmed, and
  empty when the field is absent. \<open>None\<close> for a body whose \<open>name\<close> is not a string.
\<close>

definition name_of :: "(pystr \<times> json) list \<Rightarrow> pystr option" where
  "name_of d =
     (case map_of d (ustr ''name'') of
        None \<Rightarrow> Some []
      | Some (JStr n) \<Rightarrow> Some (strip n)
      | Some _ \<Rightarrow> None)"

text \<open>An address without lone surrogates, or none.\<close>

definition encodable_opt :: "pystr option \<Rightarrow> bool" where
  "encodable_opt a = (case a of None \<Rightarrow> True | Some s \<Rightarrow> encodable s)"

text \<open>What \<open>isinstance(methods, list)\<close> tests.\<close>

definition is_list :: "json \<Rightarrow> bool" where
  "is_list j = (case j of JList _ \<Rightarrow> True | _ \<Rightarrow> False)"

subsection \<open>Stores after an operation\<close>

text \<open>A table whose counter stands at \<open>seq\<close> can take \<open>n\<close> more rows.\<close>

definition room :: "nat \<Rightarrow> nat \<Rightarrow> bool" where
  "room seq n \<longleftrightarrow> seq + n \<le> max_rowid"

text \<open>
  The rows that a run of inserts into \<open>contact_methods\<close> appends for one contact: one
  per (type, value) pair, with the ids that follow \<open>seq\<close>.
\<close>

definition method_rows :: "nat \<Rightarrow> nat \<Rightarrow> (pystr \<times> pystr) list \<Rightarrow> method_row list" where
  "method_rows seq cid ps =
     map (\<lambda>(i, (t, v)). \<lparr>m_id = i, m_contact_id = cid, m_type = t, m_value = v\<rparr>)
         (enumerate (Suc seq) ps)"

definition add_rows :: "connection \<Rightarrow> nat \<Rightarrow> (pystr \<times> pystr) list \<Rightarrow> connection" where
  "add_rows conn cid ps =
     conn\<lparr>db := (db conn)\<lparr>contact_methods :=
                               contact_methods (db conn) @ method_rows (methods_seq (db conn)) cid ps,
                            methods_seq := methods_seq (db conn) + length ps\<rparr>\<rparr>"

text \<open>A method row without its own id: contact, type and value.\<close>

definition method_key :: "method_row \<Rightarrow> nat \<times> pystr \<times> pystr" where
  "method_key m = (m_contact_id m, m_type m, m_value m)"

text \<open>The store after one contact and the method pairs \<open>ps\<close> were inserted for it.\<close>

definition created_store :: "store \<Rightarrow> pystr \<Rightarrow> pystr option \<Rightarrow> (pystr \<times> pystr) list \<Rightarrow> store" where
  "created_store s name address ps =
     s\<lparr>contacts := contacts s @ [\<lparr>c_id = Suc (contacts_seq s), c_name = name,
                                    c_address = address, c_is_favorite = 0\<rparr>],
       contact_methods := contact_methods s @ method_rows (methods_seq s) (Suc (contacts_seq s)) ps,
       contacts_seq := Suc (contacts_seq s),
       methods_seq := methods_seq s + length ps\<rparr>"

text \<open>The store after an update that stores the pairs \<open>ps\<close> for contact \<open>cid\<close>.\<close>

definition updated_store :: "store \<Rightarrow> nat \<Rightarrow> pystr \<Rightarrow> pystr option \<Rightarrow> (pystr \<times> pystr) list \<Rightarrow> store" where
  "updated_store s cid name address ps =
     s\<lparr>contacts := map (\<lambda>c. if c_id c = cid then c\<lparr>c_name := name, c_address := address\<rparr> else c)
                        (contacts s),
       contact_methods := filter (\<lambda>m. m_contact_id m \<noteq> cid) (contact_methods s)
                          @ method_rows (methods_seq s) cid ps,
       methods_seq := methods_seq s + length ps\<rparr>"

text \<open>The store after \<open>UPDATE contacts SET is_favorite = fav WHERE id = cid\<close>.\<close>

definition set_favorite :: "store \<Rightarrow> nat \<Rightarrow> int \<Rightarrow> store" where
  "set_favorite s cid fav =
     s\<lparr>contacts := map (\<lambda>c. if c_id c = cid then c\<lparr>c_is_favorite := fav\<rparr> else c) (contacts s)\<rparr>"

subsection \<open>Imported rows\<close>

text \<open>An upload that was decoded from UTF-8 has no lone surrogate in any cell.\<close>

definition decoded :: "pystr list list \<Rightarrow> bool" where
  "decoded records = list_all (list_all encodable) records"

text \<open>The records of an upload whose trimmed name is not empty.\<close>

definition named_rows :: "pystr list \<Rightarrow> pystr list list \<Rightarrow> pystr list list" where
  "named_rows fieldnames records = filter (\<lambda>row. field fieldnames row col_name \<noteq> []) records"

text \<open>The address of an imported row: \<open>address or None\<close>.\<close>

definition row_address :: "pystr list \<Rightarrow> pystr list \<Rightarrow> pystr option" where
  "row_address fieldnames row =
     (if field fieldnames row col_address \<noteq> [] then Some (field fieldnames row col_address) else None)"

text \<open>
  The methods of an imported row: phone, email and address, in this order, each when
  its trimmed field is not empty.
\<close>

definition tagged :: "string \<Rightarrow> pystr \<Rightarrow> (pystr \<times> pystr) list" where
  "tagged ty v = (if v \<noteq> [] then [(ustr ty, v)] else [])"

definition row_methods :: "pystr list \<Rightarrow> pystr list \<Rightarrow> (pystr \<times> pystr) list" where
  "row_methods fieldnames row =
     tagged ''phone'' (field fieldnames row col_phone) @
     tagged ''email'' (field fieldnames row col_email) @
     tagged ''address'' (field fieldnames row col_address)"

text \<open>The contact row of the imported row \<open>row\<close> that got the id \<open>i\<close>, and its methods.\<close>

definition imported_contact :: "pystr list \<Rightarrow> nat \<times> pystr list \<Rightarrow> contact_row" where
  "imported_contact fieldnames = (\<lambda>(i, row).
     \<lparr>c_id = i, c_name = field fieldnames row col_name, c_address = row_address fieldnames row,
      c_is_favorite = 0\<rparr>)"

definition imported_methods :: "pystr list \<Rightarrow> nat \<times> pystr list \<Rightarrow> (nat \<times> pystr \<times> pystr) list" where
  "imported_methods fieldnames = (\<lambda>(i, row). map (\<lambda>(t, v). (i, t, v)) (row_methods fieldnames row))"

text \<open>The store after the rows were inserted one after the other.\<close>

fun imported :: "pystr list \<Rightarrow> store \<Rightarrow> pystr list list \<Rightarrow> store" where
  "imported fieldnames s [] = s"
| "imported fieldnames s (row # rows) =
     imported fieldnames
       (created_store s (field fieldnames row col_name) (row_address fieldnames row)
          (row_methods fieldnames row))
       rows"

section \<open>Sample data\<close>

text \<open>
  A request body with one complete method, and the store after creating that contact in
  the empty database. \<open>no_repr\<close> stands in for Python's printing of lists and dicts,
  which no sample uses.
\<close>

definition sample_method :: json where
  "sample_method = JDict [(ustr ''type'', JStr (ustr ''phone'')), (ustr ''value'', JStr (ustr ''555''))]"

definition sample_fields :: "(pystr \<times> json) list" where
  "sample_fields = [(ustr ''name'', JStr (ustr ''Ann'')), (ustr ''methods'', JList [sample_method])]"

definition sample_body :: json where
  "sample_body = JDict sample_fields"

definition no_repr :: "json \<Rightarrow> pystr" where
  "no_repr j = []"

definition sample_store :: store where
  "sample_store = snd (add_contact no_repr init_db sample_body)"

text \<open>
  An update body whose first method entry has no value and whose second is complete, and
  a body without the \<open>methods\<close> field.
\<close>

definition partial_method :: json where
  "partial_method = JDict [(ustr ''type'', JStr (ustr ''fax''))]"

definition email_method :: json where
  "email_method = JDict [(ustr ''type'', JStr (ustr ''email'')), (ustr ''value'', JStr (ustr ''b@x''))]"

definition sample_update :: "(pystr \<times> json) list" where
  "sample_update = [(ustr ''name'', JStr (ustr '' Bob '')), (ustr ''address'', JStr (ustr ''1 Main St'')),
                    (ustr ''methods'', JList [partial_method, email_method])]"

definition name_only :: "(pystr \<times> json) list" where
  "name_only = [(ustr ''name'', JStr (ustr ''Bob''))]"

text \<open>
  Request bodies that \<open>add_contact\<close> refuses: a name of blanks only, a \<open>methods\<close> field that
  is not a list, an empty list, and a list with an incomplete entry.
\<close>

definition blank_name :: "(pystr \<times> json) list" where
  "blank_name = [(ustr ''name'', JStr (ustr ''  '')), (ustr ''methods'', JList [sample_method])]"

definition methods_text :: "(pystr \<times> json) list" where
  "methods_text = [(ustr ''name'', JStr (ustr ''Bob'')), (ustr ''methods'', JStr (ustr ''phone''))]"

definition methods_empty :: "(pystr \<times> json) list" where
  "methods_empty = [(ustr ''name'', JStr (ustr ''Bob'')), (ustr ''methods'', JList [])]"

definition methods_partial :: "(pystr \<times> json) list" where
  "methods_partial = [(ustr ''name'', JStr (ustr ''Bob'')),
                      (ustr ''methods'', JList [sample_method, partial_method])]"

text \<open>
  An upload with the four columns and three records: Alice with phone, email and
  address, a record whose name is a blank, and Bob with an email only.
\<close>

definition sample_header :: "pystr list" where
  "sample_header = [col_name, col_phone, col_email, col_address]"

definition sample_records :: "pystr list list" where
  "sample_records =
     [[ustr ''Alice'', ustr ''555-1111'', ustr ''a@x.com'', ustr ''1 Main St''],
      [ustr '' '', ustr ''555-2222'', ustr ''c@x.com'', ustr ''2 Main St''],
      [ustr ''Bob'', [], ustr ''b@x.com'', []]]"

section \<open>Facts about the statements and the loops\<close>

lemma max_rowid_fits: "max_rowid < 2 ^ 63"
  by (simp add: max_rowid_def)

lemma room_id_fits: "room seq n \<Longrightarrow> 0 < n \<Longrightarrow> seq < max_rowid \<and> Suc seq < 2 ^ 63"
  using max_rowid_fits by (simp add: room_def)

lemma room_Suc: "room seq (Suc n) \<Longrightarrow> room (Suc seq) n"
  by (simp add: room_def)

lemma bind_id_fits [simp]: "n < 2 ^ 63 \<Longrightarrow> bind_id n = Inr n"
  by (simp add: bind_id_def)

lemma encodable_Nil [simp]: "encodable []"
  by (simp add: encodable_def)

lemma encodable_strip: "encodable s \<Longrightarrow> encodable (strip s)"
proof -
  have "set (dropWhile isspace (rev (dropWhile isspace s))) \<subseteq> set (rev (dropWhile isspace s))"
    by (auto dest: set_dropWhileD)
  also have "\<dots> \<subseteq> set s"
    by (auto dest: set_dropWhileD)
  finally have "set (strip s) \<subseteq> set s"
    by (simp add: strip_def)
  then show "encodable s \<Longrightarrow> encodable (strip s)"
    by (auto simp: encodable_def list_all_iff)
qed

lemma bind_str_encodable [simp]: "encodable s \<Longrightarrow> bind_str s = Inr s"
  by (simp add: bind_str_def)

lemma bind_opt_encodable [simp]: "encodable_opt a \<Longrightarrow> bind_opt a = Inr a"
  by (cases a) (simp_all add: bind_opt_def encodable_opt_def)

text \<open>When a statement goes through, and what it leaves.\<close>

lemma bind_id_Inr: "bind_id n = Inr m \<longleftrightarrow> n < 2 ^ 63 \<and> m = n"
  by (auto simp: bind_id_def)

lemma bind_str_Inr: "bind_str s = Inr s' \<longleftrightarrow> encodable s \<and> s' = s"
  by (auto simp: bind_str_def)

lemma bind_opt_Inr: "bind_opt a = Inr a' \<longleftrightarrow> encodable_opt a \<and> a' = a"
  by (cases a) (auto simp: bind_opt_def encodable_opt_def)

lemma sql_insert_contact_Inr:
  "sql_insert_contact conn name address = Inr r \<longleftrightarrow>
     encodable name \<and> encodable_opt address \<and> contacts_seq (db conn) < max_rowid \<and>
     r = (conn\<lparr>db := (db conn)\<lparr>contacts := contacts (db conn) @
            [\<lparr>c_id = Suc (contacts_seq (db conn)), c_name = name, c_address = address,
              c_is_favorite = 0\<rparr>],
            contacts_seq := Suc (contacts_seq (db conn))\<rparr>\<rparr>, Suc (contacts_seq (db conn)))"
proof (cases "encodable name \<and> encodable_opt address")
  case True
  then show ?thesis
    by (auto simp: sql_insert_contact_def Let_def)
next
  case False
  then have "bind_str name = Inl UnicodeEncodeError \<or>
      (bind_str name = Inr name \<and> bind_opt address = Inl UnicodeEncodeError)"
    by (cases address) (auto simp: bind_str_def bind_opt_def encodable_opt_def)
  then show ?thesis using False
    by (auto simp: sql_insert_contact_def)
qed

lemma sql_update_contact_Inr:
  "sql_update_contact conn name address cid = Inr conn' \<longleftrightarrow>
     encodable name \<and> encodable_opt address \<and> cid < 2 ^ 63 \<and>
     conn' = conn\<lparr>db := (db conn)\<lparr>contacts :=
       map (\<lambda>c. if c_id c = cid then c\<lparr>c_name := name, c_address := address\<rparr> else c)
           (contacts (db conn))\<rparr>\<rparr>"
proof (cases "encodable name \<and> encodable_opt address")
  case True
  then show ?thesis
    by (auto simp: sql_update_contact_def bind_id_def Let_def)
next
  case False
  then have "bind_str name = Inl UnicodeEncodeError \<or>
      (bind_str name = Inr name \<and> bind_opt address = Inl UnicodeEncodeError)"
    by (cases address) (auto simp: bind_str_def bind_opt_def encodable_opt_def)
  then show ?thesis using False
    by (auto simp: sql_update_contact_def)
qed

lemma sql_update_favorite_Inr:
  "fav = 0 \<or> fav = 1 \<Longrightarrow>
   sql_update_favorite conn fav cid = Inr conn' \<longleftrightarrow>
     cid < 2 ^ 63 \<and>
     conn' = conn\<lparr>db := (db conn)\<lparr>contacts :=
       map (\<lambda>c. if c_id c = cid then c\<lparr>c_is_favorite := fav\<rparr> else c) (contacts (db conn))\<rparr>\<rparr>"
  by (auto simp: sql_update_favorite_def bind_id_def Let_def)

lemma sql_delete_methods_Inr:
  "sql_delete_methods conn cid = Inr conn' \<longleftrightarrow>
     cid < 2 ^ 63 \<and>
     conn' = conn\<lparr>db := (db conn)\<lparr>contact_methods :=
       filter (\<lambda>m. m_contact_id m \<noteq> cid) (contact_methods (db conn))\<rparr>\<rparr>"
  by (auto simp: sql_delete_methods_def bind_id_def Let_def)

lemma sql_delete_contact_Inr:
  "sql_delete_contact conn cid = Inr r \<longleftrightarrow>
     cid < 2 ^ 63 \<and>
     r = (conn\<lparr>db := (db conn)\<lparr>contacts := filter (\<lambda>c. c_id c \<noteq> cid) (contacts (db conn)),
            contact_methods :=
              (if foreign_keys conn \<and> 0 < length (filter (\<lambda>c. c_id c = cid) (contacts (db conn)))
               then filter (\<lambda>m. m_contact_id m \<noteq> cid) (contact_methods (db conn))
               else contact_methods (db conn))\<rparr>\<rparr>,
          length (filter (\<lambda>c. c_id c = cid) (contacts (db conn))))"
  by (auto simp: sql_delete_contact_def bind_id_def Let_def)

lemma sql_select_exists_Some:
  "sql_select_exists conn cid = Inr (Some ex) \<longleftrightarrow>
     cid < 2 ^ 63 \<and> cid \<in> c_id ` set (contacts (db conn)) \<and> ex = [1]"
proof -
  have "filter (\<lambda>c. c_id c = cid) (contacts (db conn)) = [] \<longleftrightarrow> cid \<notin> c_id ` set (contacts (db conn))"
    by (auto simp: filter_empty_conv)
  then show ?thesis
    by (auto simp: sql_select_exists_def bind_id_def split: list.splits)
qed

lemma sql_insert_method_Inr:
  assumes "sql_insert_method conn cid t v = Inr conn'"
  obtains t' v' where "cid < 2 ^ 63" "methods_seq (db conn) < max_rowid"
    "conn' = conn\<lparr>db := (db conn)\<lparr>contact_methods := contact_methods (db conn) @
       [\<lparr>m_id = Suc (methods_seq (db conn)), m_contact_id = cid, m_type = t', m_value = v'\<rparr>],
       methods_seq := Suc (methods_seq (db conn))\<rparr>\<rparr>"
proof -
  from assms have id: "cid < 2 ^ 63"
    by (cases "cid < (2 :: nat) ^ 63") (simp_all add: sql_insert_method_def bind_id_def)
  from assms id obtain bt bv where b: "bind_text t = Inr bt" "bind_text v = Inr bv"
    by (cases "bind_text t"; cases "bind_text v") (simp_all add: sql_insert_method_def)
  from assms id b have below: "methods_seq (db conn) < max_rowid"
    by (cases "max_rowid \<le> methods_seq (db conn)") (simp_all add: sql_insert_method_def Let_def)
  from assms id b below obtain t' v' where s: "bt = Some t'" "bv = Some v'"
    by (cases bt; cases bv) (simp_all add: sql_insert_method_def Let_def)
  from assms id b below s have
    "conn' = conn\<lparr>db := (db conn)\<lparr>contact_methods := contact_methods (db conn) @
       [\<lparr>m_id = Suc (methods_seq (db conn)), m_contact_id = cid, m_type = t', m_value = v'\<rparr>],
       methods_seq := Suc (methods_seq (db conn))\<rparr>\<rparr>"
    by (simp add: sql_insert_method_def Let_def split: if_splits)
  with id below show ?thesis by (rule that)
qed

lemma method_rows_Nil [simp]: "method_rows seq cid [] = []"
  by (simp add: method_rows_def)

lemma method_rows_Cons [simp]:
  "method_rows seq cid ((t, v) # ps) =
     \<lparr>m_id = Suc seq, m_contact_id = cid, m_type = t, m_value = v\<rparr> # method_rows (Suc seq) cid ps"
  by (simp add: method_rows_def)

lemma add_rows_Nil [simp]: "add_rows conn cid [] = conn"
  by (simp add: add_rows_def)

lemma add_rows_Cons:
  "add_rows (add_rows conn cid [p]) cid ps = add_rows conn cid (p # ps)"
  by (cases p) (simp add: add_rows_def)

lemma foreign_keys_add_rows [simp]: "foreign_keys (add_rows conn cid ps) = foreign_keys conn"
  by (simp add: add_rows_def)

lemma methods_seq_add_rows [simp]:
  "methods_seq (db (add_rows conn cid ps)) = methods_seq (db conn) + length ps"
  by (simp add: add_rows_def)

lemma insert_method_text:
  assumes "\<not> foreign_keys conn" and "cid < 2 ^ 63" and "encodable t" and "encodable v"
    and "methods_seq (db conn) < max_rowid"
  shows "sql_insert_method conn cid (JStr t) (JStr v) = Inr (add_rows conn cid [(t, v)])"
  using assms by (simp add: sql_insert_method_def bind_text_def add_rows_def Let_def)

lemma complete_entry_fields:
  assumes "is_entry m" "complete m"
  obtains d t v where "m = JDict d" "map_of d (ustr ''type'') = Some (JStr t)"
    "map_of d (ustr ''value'') = Some (JStr v)" "t \<noteq> []" "v \<noteq> []" "encodable t" "encodable v"
  using assms
  by (auto simp: is_entry_def complete_def is_object_def is_field_def entry_type_def
      entry_value_def dict_get_def split: json.splits option.splits)

lemma replace_methods_entries:
  assumes "\<forall>m \<in> set ms. is_entry m" and "\<not> foreign_keys conn" and "cid < 2 ^ 63"
    and "room (methods_seq (db conn)) (length (filter complete ms))"
  shows "replace_methods conn cid ms =
           Inr (add_rows conn cid (map entry_pair (filter complete ms)))"
  using assms
proof (induction ms arbitrary: conn)
  case Nil
  then show ?case by simp
next
  case (Cons m ms)
  then have m: "is_entry m" and ms: "\<forall>m \<in> set ms. is_entry m" by simp_all
  show ?case
  proof (cases "complete m")
    case True
    from m True obtain d t v where d: "m = JDict d" "map_of d (ustr ''type'') = Some (JStr t)"
      "map_of d (ustr ''value'') = Some (JStr v)" "t \<noteq> []" "v \<noteq> []" "encodable t" "encodable v"
      by (rule complete_entry_fields)
    have pair: "entry_pair m = (t, v)"
      using d by (simp add: entry_pair_def entry_type_def entry_value_def dict_get_def text_of_def)
    from Cons.prems(4) True
    have r: "room (methods_seq (db conn)) (Suc (length (filter complete ms)))" by simp
    then have below: "methods_seq (db conn) < max_rowid"
      using room_id_fits by blast
    let ?conn1 = "add_rows conn cid [(t, v)]"
    have r1: "room (methods_seq (db ?conn1)) (length (filter complete ms))"
      using room_Suc [OF r] by simp
    have fk1: "\<not> foreign_keys ?conn1" using Cons.prems(2) by simp
    have "replace_methods conn cid (m # ms) = replace_methods ?conn1 cid ms"
      using d by (simp add: obj_get_def obj_index_def dict_get_def
          insert_method_text [OF Cons.prems(2,3) d(6,7) below])
    also have "\<dots> = Inr (add_rows ?conn1 cid (map entry_pair (filter complete ms)))"
      by (rule Cons.IH [OF ms fk1 Cons.prems(3) r1])
    finally show ?thesis using True pair by (simp add: add_rows_Cons)
  next
    case False
    from m obtain d where d: "m = JDict d"
      by (auto simp: is_entry_def is_object_def split: json.splits)
    have "replace_methods conn cid (m # ms) = replace_methods conn cid ms"
      using False d by (auto simp: complete_def entry_type_def entry_value_def obj_get_def)
    then show ?thesis using Cons.IH [OF ms Cons.prems(2,3)] Cons.prems(4) False by simp
  qed
qed

lemma get_name_str:
  "map_of d (ustr ''name'') = Some (JStr n) \<Longrightarrow> get_name d = Inr (strip n)"
  by (simp add: get_name_def dict_get_def)

lemma select_exists_iff:
  assumes "cid < 2 ^ 63"
  shows "sql_select_exists conn cid =
           Inr (if cid \<in> c_id ` set (contacts (db conn)) then Some [1] else None)"
proof -
  have "filter (\<lambda>c. c_id c = cid) (contacts (db conn)) = [] \<longleftrightarrow> cid \<notin> c_id ` set (contacts (db conn))"
    by (auto simp: filter_empty_conv)
  then show ?thesis
    using assms by (auto simp: sql_select_exists_def split: list.splits)
qed

lemma db_connect [simp]: "db (connect s) = s" "foreign_keys (connect s) = False"
  by (simp_all add: connect_def)

lemma update_contact_entries:
  assumes name: "map_of d (ustr ''name'') = Some (JStr n)" "strip n \<noteq> []"
    and ms: "dict_get d (ustr ''methods'') (JList []) = JList ms" "\<forall>m \<in> set ms. is_entry m"
    and cid: "cid \<in> c_id ` set (contacts s)" "cid < 2 ^ 63"
    and enc: "encodable n" "encodable_opt (get_address repr d)"
    and room: "room (methods_seq s) (length (filter complete ms))"
  shows "update_contact repr s cid (JDict d) =
           (Inr \<lparr>v_id = cid, v_name = strip n, v_address = get_address repr d,
                 v_is_favorite = True, v_methods = ms\<rparr>,
            updated_store s cid (strip n) (get_address repr d) (map entry_pair (filter complete ms)))"
proof -
  have d: "d \<noteq> []" using name(1) by auto
  define conn1 where "conn1 = (connect s)\<lparr>db := s\<lparr>contacts :=
      map (\<lambda>c. if c_id c = cid then c\<lparr>c_name := strip n, c_address := get_address repr d\<rparr> else c)
          (contacts s)\<rparr>\<rparr>"
  define conn2 where "conn2 = conn1\<lparr>db := (db conn1)\<lparr>contact_methods :=
      filter (\<lambda>m. m_contact_id m \<noteq> cid) (contact_methods (db conn1))\<rparr>\<rparr>"
  have ex: "sql_select_exists (connect s) cid = Inr (Some [1])"
    using cid by (simp add: select_exists_iff)
  have u: "sql_update_contact (connect s) (strip n) (get_address repr d) cid = Inr conn1"
    using cid(2) enc by (simp add: sql_update_contact_def encodable_strip conn1_def Let_def)
  have dl: "sql_delete_methods conn1 cid = Inr conn2"
    using cid(2) by (simp add: sql_delete_methods_def conn2_def Let_def)
  have fk: "\<not> foreign_keys conn2" by (simp add: conn2_def conn1_def)
  have seq: "methods_seq (db conn2) = methods_seq s" by (simp add: conn2_def conn1_def)
  have rep: "replace_methods conn2 cid ms = Inr (add_rows conn2 cid (map entry_pair (filter complete ms)))"
    using ms(2) fk cid(2) room by (intro replace_methods_entries) (simp_all add: seq)
  have st: "commit (add_rows conn2 cid ps) = updated_store s cid (strip n) (get_address repr d) ps" for ps
    by (simp add: commit_def add_rows_def conn2_def conn1_def connect_def updated_store_def)
  show ?thesis
    using d name(2) unfolding update_contact_def
    by (simp add: get_name_str [OF name(1)] ms(1) ex u dl rep st Let_def)
qed

lemma select_methods_method_rows:
  "map (\<lambda>m. (m_type m, m_value m)) (filter (\<lambda>m. m_contact_id m = cid) (method_rows seq cid ps)) = ps"
  by (induction ps arbitrary: seq) auto

lemma select_methods_method_rows_other:
  "c \<noteq> cid \<Longrightarrow> filter (\<lambda>m. m_contact_id m = c) (method_rows seq cid ps) = []"
  by (induction ps arbitrary: seq) auto

lemma select_methods_updated:
  "sql_select_methods (updated_store s cid name address ps) c =
     (if c = cid then ps else sql_select_methods s c)"
proof (cases "c = cid")
  case True
  have "filter (\<lambda>m. m_contact_id m = cid) (filter (\<lambda>m. m_contact_id m \<noteq> cid) xs) = []"
    for xs :: "method_row list"
    by (induction xs) auto
  then show ?thesis using True
    by (simp add: sql_select_methods_def updated_store_def select_methods_method_rows)
next
  case False
  have "filter (\<lambda>m. m_contact_id m = c) (filter (\<lambda>m. m_contact_id m \<noteq> cid) xs)
          = filter (\<lambda>m. m_contact_id m = c) xs" for xs :: "method_row list"
    using False by (induction xs) auto
  then show ?thesis using False
    by (simp add: sql_select_methods_def updated_store_def select_methods_method_rows_other)
qed

text \<open>The definitions that evaluating a handler on concrete data unfolds.\<close>

lemmas sample_defs = sample_store_def sample_body_def sample_fields_def sample_method_def partial_method_def
  email_method_def sample_update_def name_only_def no_repr_def

lemmas eval_defs = add_contact_def update_contact_def delete_contact_def toggle_favorite_def
  init_db_def ustr_def get_name_def get_address_def py_str_def dict_get_def strip_def isspace_def
  obj_get_def obj_index_def connect_def commit_def sql_insert_contact_def sql_insert_method_def
  sql_select_exists_def sql_select_favorite_def sql_update_contact_def sql_update_favorite_def
  sql_delete_methods_def sql_delete_contact_def sql_select_methods_def bind_text_def
  bind_id_def bind_str_def bind_opt_def encodable_def scalar_value_def max_rowid_def
  get_contact_with_methods_def get_contacts_def get_favorites_def Let_def

lemma sample_store_eq:
  "sample_store =
     \<lparr>contacts = [\<lparr>c_id = 1, c_name = ustr ''Ann'', c_address = None, c_is_favorite = 0\<rparr>],
      contact_methods = [\<lparr>m_id = 1, m_contact_id = 1, m_type = ustr ''phone'',
                          m_value = ustr ''555''\<rparr>],
      contacts_seq = 1, methods_seq = 1\<rparr>"
  by (simp add: sample_defs eval_defs)

section \<open>Update\<close>

text \<open>
  Claim C4. An update of an existing contact with a non-empty name and a list of method
  entries succeeds; afterwards the methods stored for the contact are exactly the
  complete entries of the list, in order (so none for an empty list, and an incomplete
  entry is passed over without failing the request), the methods of every other contact
  are as before, and the contact's row carries the new name and address. The strings
  of the request have no lone surrogate, the id fits SQLite's integers, as the id of
  every stored row does, and the table of methods has room for the new rows.
\<close>

theorem update_replaces_methods:
  assumes "map_of d (ustr ''name'') = Some (JStr n)" and "strip n \<noteq> []"
    and "map_of d (ustr ''methods'') = Some (JList ms)" and "\<forall>m \<in> set ms. is_entry m"
    and "cid \<in> c_id ` set (contacts s)"
    and "encodable n" and "encodable_opt (get_address repr d)"
    and "cid < 2 ^ 63" and "room (methods_seq s) (length (filter complete ms))"
  shows "\<exists>v s'. update_contact repr s cid (JDict d) = (Inr v, s') \<and>
           sql_select_methods s' cid = map entry_pair (filter complete ms) \<and>
           (\<forall>c. c \<noteq> cid \<longrightarrow> sql_select_methods s' c = sql_select_methods s c) \<and>
           contacts s' =
             map (\<lambda>c. if c_id c = cid then c\<lparr>c_name := strip n, c_address := get_address repr d\<rparr> else c)
                 (contacts s)"
proof -
  have ms: "dict_get d (ustr ''methods'') (JList []) = JList ms"
    using assms(3) by (simp add: dict_get_def)
  note upd = update_contact_entries [OF assms(1,2) ms assms(4,5) assms(8) assms(6,7) assms(9)]
  show ?thesis
    unfolding upd
    by (simp add: select_methods_updated) (simp add: updated_store_def)
qed

theorem update_replaces_methods_witness:
  "map_of sample_update (ustr ''name'') = Some (JStr (ustr '' Bob '')) \<and>
   strip (ustr '' Bob '') \<noteq> [] \<and>
   map_of sample_update (ustr ''methods'') = Some (JList [partial_method, email_method]) \<and>
   is_entry partial_method \<and> is_entry email_method \<and>
   1 \<in> c_id ` set (contacts sample_store) \<and>
   encodable (ustr '' Bob '') \<and>
   encodable_opt (get_address no_repr sample_update) \<and>
   (1 :: nat) < 2 ^ 63 \<and>
   room (methods_seq sample_store) (length (filter complete [partial_method, email_method])) \<and>
   (\<exists>v s'. update_contact no_repr sample_store 1 (JDict sample_update) = (Inr v, s') \<and>
      sql_select_methods s' 1 = [(ustr ''email'', ustr ''b@x'')] \<and>
      map c_name (contacts s') = [ustr ''Bob''] \<and>
      map c_address (contacts s') = [Some (ustr ''1 Main St'')])"
proof -
  have h1: "map_of sample_update (ustr ''name'') = Some (JStr (ustr '' Bob ''))"
    by (simp add: sample_update_def ustr_def)
  have h2: "strip (ustr '' Bob '') \<noteq> []"
    by (simp add: strip_def isspace_def ustr_def)
  have h3: "map_of sample_update (ustr ''methods'') = Some (JList [partial_method, email_method])"
    by (simp add: sample_update_def ustr_def)
  have e: "is_entry partial_method" "is_entry email_method"
    by (simp_all add: partial_method_def email_method_def is_entry_def is_object_def is_field_def
        entry_type_def entry_value_def dict_get_def ustr_def encodable_def scalar_value_def)
  then have h4: "\<forall>m \<in> set [partial_method, email_method]. is_entry m"
    by simp
  have h5: "1 \<in> c_id ` set (contacts sample_store)"
    by (simp add: sample_store_eq)
  have h6: "encodable (ustr '' Bob '')"
    by (simp add: encodable_def scalar_value_def ustr_def)
  have a: "get_address no_repr sample_update = Some (ustr ''1 Main St'')"
    by (simp add: sample_update_def get_address_def dict_get_def py_str_def strip_def isspace_def ustr_def)
  have h7: "encodable_opt (get_address no_repr sample_update)"
    unfolding a by (simp add: encodable_opt_def encodable_def scalar_value_def ustr_def)
  have h8: "(1 :: nat) < 2 ^ 63" by simp
  have f: "map entry_pair (filter complete [partial_method, email_method]) = [(ustr ''email'', ustr ''b@x'')]"
    by (simp add: partial_method_def email_method_def complete_def entry_pair_def text_of_def
        entry_type_def entry_value_def dict_get_def ustr_def)
  have h9: "room (methods_seq sample_store) (length (filter complete [partial_method, email_method]))"
    by (simp add: room_def max_rowid_def sample_store_eq)
  have c: "contacts sample_store = [\<lparr>c_id = 1, c_name = ustr ''Ann'', c_address = None, c_is_favorite = 0\<rparr>]"
    by (simp add: sample_store_eq)
  have n: "strip (ustr '' Bob '') = ustr ''Bob''"
    by (simp add: strip_def isspace_def ustr_def)
  from update_replaces_methods [OF h1 h2 h3 h4 h5 h6 h7 h8 h9]
  obtain v s' where "update_contact no_repr sample_store 1 (JDict sample_update) = (Inr v, s')"
    "sql_select_methods s' 1 = [(ustr ''email'', ustr ''b@x'')]"
    "map c_name (contacts s') = [ustr ''Bob'']"
    "map c_address (contacts s') = [Some (ustr ''1 Main St'')]"
    unfolding f c a n by auto
  with h1 h2 h3 e h5 h6 h7 h8 h9 show ?thesis by - (intro conjI exI, assumption+)
qed

text \<open>
  Claim C9. An update whose body has a valid name and no \<open>methods\<close> field, on an existing
  contact, passes validation and succeeds: the absent field counts as the empty list,
  the response echoes no methods, and no method of the contact is left in the store.
  The name and the address have no lone surrogate and the id fits SQLite's integers, as
  the id of every stored row does.
\<close>

theorem update_without_methods:
  assumes "map_of d (ustr ''name'') = Some (JStr n)" and "strip n \<noteq> []"
    and "map_of d (ustr ''methods'') = None"
    and "cid \<in> c_id ` set (contacts s)"
    and "encodable n" and "encodable_opt (get_address repr d)" and "cid < 2 ^ 63"
  shows "\<exists>v s'. update_contact repr s cid (JDict d) = (Inr v, s') \<and>
           v_methods v = [] \<and>
           sql_select_methods s' cid = [] \<and>
           (\<forall>m \<in> set (contact_methods s'). m_contact_id m \<noteq> cid)"
proof -
  have ms: "dict_get d (ustr ''methods'') (JList []) = JList []"
    using assms(3) by (simp add: dict_get_def)
  have r: "room (methods_seq s) (length (filter complete []))"
    if "methods_seq s \<le> max_rowid"
    using that by (simp add: room_def)
  show ?thesis
  proof (cases "methods_seq s \<le> max_rowid")
    case True
    have "update_contact repr s cid (JDict d) =
          (Inr \<lparr>v_id = cid, v_name = strip n, v_address = get_address repr d,
                v_is_favorite = True, v_methods = []\<rparr>,
           updated_store s cid (strip n) (get_address repr d) [])"
      using update_contact_entries [OF assms(1,2) ms _ assms(4) assms(7) assms(5,6) r [OF True]]
      by simp
    then show ?thesis
      by (simp add: select_methods_updated) (simp add: updated_store_def)
  next
    case False
    have d: "d \<noteq> []" using assms(1) by auto
    define conn1 where "conn1 = (connect s)\<lparr>db := s\<lparr>contacts :=
      map (\<lambda>c. if c_id c = cid then c\<lparr>c_name := strip n, c_address := get_address repr d\<rparr> else c)
          (contacts s)\<rparr>\<rparr>"
    define conn2 where "conn2 = conn1\<lparr>db := (db conn1)\<lparr>contact_methods :=
      filter (\<lambda>m. m_contact_id m \<noteq> cid) (contact_methods (db conn1))\<rparr>\<rparr>"
    have ex: "sql_select_exists (connect s) cid = Inr (Some [1])"
      using assms(4,7) by (simp add: select_exists_iff)
    have u: "sql_update_contact (connect s) (strip n) (get_address repr d) cid = Inr conn1"
      using assms(5,6,7) by (simp add: sql_update_contact_def encodable_strip conn1_def Let_def)
    have dl: "sql_delete_methods conn1 cid = Inr conn2"
      using assms(7) by (simp add: sql_delete_methods_def conn2_def Let_def)
    have "update_contact repr s cid (JDict d) =
          (Inr \<lparr>v_id = cid, v_name = strip n, v_address = get_address repr d,
                v_is_favorite = True, v_methods = []\<rparr>, commit conn2)"
      using d assms(2) unfolding update_contact_def
      by (simp add: get_name_str [OF assms(1)] ms ex u dl Let_def)
    moreover have "commit conn2 = updated_store s cid (strip n) (get_address repr d) []"
      by (simp add: commit_def conn2_def conn1_def connect_def updated_store_def)
    ultimately show ?thesis
      by (simp add: select_methods_updated) (simp add: updated_store_def)
  qed
qed

theorem update_without_methods_witness:
  "map_of name_only (ustr ''name'') = Some (JStr (ustr ''Bob'')) \<and>
   strip (ustr ''Bob'') \<noteq> [] \<and>
   map_of name_only (ustr ''methods'') = None \<and>
   1 \<in> c_id ` set (contacts sample_store) \<and>
   encodable (ustr ''Bob'') \<and>
   encodable_opt (get_address no_repr name_only) \<and>
   (1 :: nat) < 2 ^ 63 \<and>
   sql_select_methods sample_store 1 = [(ustr ''phone'', ustr ''555'')] \<and>
   (\<exists>v s'. update_contact no_repr sample_store 1 (JDict name_only) = (Inr v, s') \<and>
      v_methods v = [] \<and> sql_select_methods s' 1 = [])"
proof -
  have h1: "map_of name_only (ustr ''name'') = Some (JStr (ustr ''Bob''))"
    by (simp add: name_only_def ustr_def)
  have h2: "strip (ustr ''Bob'') \<noteq> []"
    by (simp add: strip_def isspace_def ustr_def)
  have h3: "map_of name_only (ustr ''methods'') = None"
    by (simp add: name_only_def ustr_def)
  have h4: "1 \<in> c_id ` set (contacts sample_store)"
    by (simp add: sample_store_eq)
  have h5: "encodable (ustr ''Bob'')"
    by (simp add: encodable_def scalar_value_def ustr_def)
  have h6: "encodable_opt (get_address no_repr name_only)"
    by (simp add: encodable_opt_def get_address_def dict_get_def name_only_def ustr_def)
  have h7: "(1 :: nat) < 2 ^ 63" by simp
  have b: "sql_select_methods sample_store 1 = [(ustr ''phone'', ustr ''555'')]"
    by (simp add: sample_store_eq sql_select_methods_def)
  from update_without_methods [OF h1 h2 h3 h4 h5 h6 h7]
  obtain v s' where "update_contact no_repr sample_store 1 (JDict name_only) = (Inr v, s')"
    "v_methods v = []" "sql_select_methods s' 1 = []"
    by auto
  with h1 h2 h3 h4 h5 h6 h7 b show ?thesis by - (intro conjI exI, assumption+)
qed

text \<open>
  Whatever the request, a successful update answers with the favorite flag set and with
  the list it was given.
\<close>

lemma update_contact_success:
  assumes "update_contact repr s cid data = (Inr v, s')"
  shows "v_is_favorite v"
    and "\<exists>d. data = JDict d \<and> dict_get d (ustr ''methods'') (JList []) = JList (v_methods v)"
  using assms
  by (auto simp: update_contact_def Let_def split: if_splits json.splits sum.splits option.splits)

text \<open>
  Claim C10. The methods of the view that a successful update returns are the list of
  the request as it was supplied (the empty list when the field is absent), incomplete
  entries included; and there is an update whose returned list is longer than the list
  of methods stored for the contact.
\<close>

theorem update_echoes_raw_methods:
  "(update_contact repr s cid data = (Inr v, s') \<longrightarrow>
      (\<exists>d. data = JDict d \<and> dict_get d (ustr ''methods'') (JList []) = JList (v_methods v))) \<and>
   (\<exists>s0 d0 v0 s0'. update_contact repr s0 1 (JDict d0) = (Inr v0, s0') \<and>
      length (v_methods v0) \<noteq> length (sql_select_methods s0' 1))"
proof (intro conjI impI)
  assume "update_contact repr s cid data = (Inr v, s')"
  then show "\<exists>d. data = JDict d \<and> dict_get d (ustr ''methods'') (JList []) = JList (v_methods v)"
    by (rule update_contact_success(2))
next
  let ?d = "[(ustr ''name'', JStr (ustr ''Ann'')), (ustr ''methods'', JList [partial_method])]"
  have "update_contact repr sample_store 1 (JDict ?d) =
          (Inr \<lparr>v_id = 1, v_name = ustr ''Ann'', v_address = None, v_is_favorite = True,
                v_methods = [partial_method]\<rparr>,
           sample_store\<lparr>contact_methods := []\<rparr>)"
    by (simp add: sample_defs eval_defs)
  then show "\<exists>s0 d0 v0 s0'. update_contact repr s0 1 (JDict d0) = (Inr v0, s0') \<and>
      length (v_methods v0) \<noteq> length (sql_select_methods s0' 1)"
    by (intro exI [of _ sample_store] exI [of _ ?d] exI conjI) (assumption, simp add: sql_select_methods_def)
qed

theorem update_echoes_raw_methods_witness:
  "\<exists>v s'. update_contact no_repr sample_store 1 (JDict sample_update) = (Inr v, s') \<and>
      v_methods v = [partial_method, email_method] \<and>
      sql_select_methods s' 1 = [(ustr ''email'', ustr ''b@x'')]"
proof -
  have u: "update_contact no_repr sample_store 1 (JDict sample_update) =
          (Inr \<lparr>v_id = 1, v_name = ustr ''Bob'', v_address = Some (ustr ''1 Main St''),
                v_is_favorite = True, v_methods = [partial_method, email_method]\<rparr>,
           \<lparr>contacts = [\<lparr>c_id = 1, c_name = ustr ''Bob'', c_address = Some (ustr ''1 Main St''),
                          c_is_favorite = 0\<rparr>],
             contact_methods = [\<lparr>m_id = 2, m_contact_id = 1, m_type = ustr ''email'',
                                 m_value = ustr ''b@x''\<rparr>],
             contacts_seq = 1, methods_seq = 2\<rparr>)" (is "_ = (Inr ?v, ?s)")
    by (simp add: sample_defs eval_defs)
  from update_echoes_raw_methods [of no_repr sample_store 1 "JDict sample_update" ?v ?s] u
  have "dict_get sample_update (ustr ''methods'') (JList []) = JList (v_methods ?v)"
    by blast
  then have "v_methods ?v = [partial_method, email_method]"
    by simp
  moreover have "sql_select_methods ?s 1 = [(ustr ''email'', ustr ''b@x'')]"
    by (simp add: sql_select_methods_def)
  ultimately show ?thesis using u by blast
qed

text \<open>
  Claim C1. The view returned by an update should carry the favorite flag stored for
  the contact. The handler computes the flag as the truth value of the row fetched by
  its existence query, which is true whenever the update goes through. Here a contact
  is created (its stored flag is 0) and then updated: the response says favorite, while
  the stored flag is still 0 and the listing says not favorite.
\<close>

theorem update_reports_favorite_unconditionally:
  "fst (update_contact no_repr sample_store 1 sample_body) =
     Inr \<lparr>v_id = 1, v_name = ustr ''Ann'', v_address = None, v_is_favorite = True,
           v_methods = [sample_method]\<rparr> \<and>
   map c_is_favorite (contacts (snd (update_contact no_repr sample_store 1 sample_body))) = [0] \<and>
   map v_is_favorite (get_contacts (snd (update_contact no_repr sample_store 1 sample_body))) = [False]"
  by (simp add: sample_defs eval_defs)

section \<open>Delete\<close>

text \<open>
  Deleting removes the rows of \<open>contacts\<close> with the id and nothing else, because the
  connection does not enforce foreign keys; an id without a row is reported as not
  found and leaves the store as it was. An id that does not fit SQLite's integers
  cannot be bound: the handler raises.
\<close>

lemma delete_contact_missing:
  assumes "cid \<notin> c_id ` set (contacts s)" and "cid < 2 ^ 63"
  shows "delete_contact s cid = (Inl NotFoundError, s)"
proof -
  from assms(1) have "filter (\<lambda>c. c_id c = cid) (contacts s) = []"
    and "filter (\<lambda>c. c_id c \<noteq> cid) (contacts s) = contacts s"
    by (auto simp: filter_empty_conv filter_id_conv)
  then show ?thesis
    using assms(2)
    by (simp add: delete_contact_def sql_delete_contact_def commit_def Let_def)
qed

lemma delete_contact_existing:
  assumes "cid \<in> c_id ` set (contacts s)" and "cid < 2 ^ 63"
  shows "delete_contact s cid =
           (Inr (), s\<lparr>contacts := filter (\<lambda>c. c_id c \<noteq> cid) (contacts s)\<rparr>)"
proof -
  from assms(1) have "filter (\<lambda>c. c_id c = cid) (contacts s) \<noteq> []"
    by (auto simp: filter_empty_conv)
  then show ?thesis
    using assms(2)
    by (simp add: delete_contact_def sql_delete_contact_def commit_def Let_def)
qed

lemma delete_contact_overflow:
  "2 ^ 63 \<le> cid \<Longrightarrow> delete_contact s cid = (Inl (InternalError OverflowError), s)"
  by (simp add: delete_contact_def sql_delete_contact_def bind_id_def)

text \<open>
  On a connection that enforces foreign keys the same statement takes the contact's
  method rows with it.
\<close>

lemma delete_cascades_when_enforced:
  assumes "foreign_keys conn" and "cid \<in> c_id ` set (contacts (db conn))" and "cid < 2 ^ 63"
  shows "\<exists>conn' n. sql_delete_contact conn cid = Inr (conn', n) \<and>
           (\<forall>m \<in> set (contact_methods (db conn')). m_contact_id m \<noteq> cid)"
proof -
  from assms(2) have "filter (\<lambda>c. c_id c = cid) (contacts (db conn)) \<noteq> []"
    by (auto simp: filter_empty_conv)
  then show ?thesis
    using assms(1,3) by (simp add: sql_delete_contact_def Let_def)
qed

text \<open>
  Claim C2. Deleting an existing contact should remove its row and all its method rows.
  Here the contact created from the sample body, which has one method, is deleted: the
  request succeeds and the contact's row is gone, but its method row is still stored.
\<close>

theorem delete_leaves_method_rows:
  "delete_contact sample_store 1 =
     (Inr (), \<lparr>contacts = [],
                contact_methods = [\<lparr>m_id = 1, m_contact_id = 1, m_type = ustr ''phone'',
                                    m_value = ustr ''555''\<rparr>],
                contacts_seq = 1, methods_seq = 1\<rparr>)"
  by (simp add: sample_defs eval_defs)

text \<open>
  Claim C3. In every reachable state every method row should reference an existing
  contact. The state after creating a contact with one method and deleting it is
  reachable and holds a method row whose contact is gone.
\<close>

theorem orphan_reachable:
  "reachable (snd (delete_contact sample_store 1)) \<and>
   \<not> no_orphans (snd (delete_contact sample_store 1))"
proof
  have "reachable sample_store"
    unfolding sample_store_def by (intro reachable.intros)
  then show "reachable (snd (delete_contact sample_store 1))"
    by (rule reach_delete)
  show "\<not> no_orphans (snd (delete_contact sample_store 1))"
    by (simp add: no_orphans_def sample_defs eval_defs)
qed

section \<open>The store stays well formed\<close>

text \<open>
  Every statement and every handler keeps \<open>wf_store\<close>, so it holds in every reachable
  state: the hypothesis \<open>wf_store\<close> of a theorem below excludes no state of the program.
\<close>

lemma wf_store_init: "wf_store init_db"
  by (simp add: wf_store_def init_db_def)

lemma wf_insert_contact:
  assumes "wf_store (db conn)" and "sql_insert_contact conn name address = Inr (conn', i)"
  shows "wf_store (db conn')" and "i \<le> contacts_seq (db conn')"
proof -
  from assms(2) have
    c: "conn' = conn\<lparr>db := (db conn)\<lparr>contacts := contacts (db conn) @
      [\<lparr>c_id = Suc (contacts_seq (db conn)), c_name = name, c_address = address, c_is_favorite = 0\<rparr>],
      contacts_seq := Suc (contacts_seq (db conn))\<rparr>\<rparr>" and i: "i = Suc (contacts_seq (db conn))"
    and below: "contacts_seq (db conn) < max_rowid"
    by (simp_all add: sql_insert_contact_Inr)
  from assms(1) have fresh: "Suc (contacts_seq (db conn)) \<notin> c_id ` set (contacts (db conn))"
    by (fastforce simp: wf_store_def)
  show "wf_store (db conn')"
    using assms(1) fresh below unfolding c wf_store_def
    by (simp add: le_SucI)
  show "i \<le> contacts_seq (db conn')"
    unfolding c i by simp
qed

lemma wf_insert_method:
  assumes "wf_store (db conn)" and "cid \<le> contacts_seq (db conn)"
    and "sql_insert_method conn cid t v = Inr conn'"
  shows "wf_store (db conn') \<and> cid \<le> contacts_seq (db conn')"
proof -
  from assms(3) obtain t' v' where below: "methods_seq (db conn) < max_rowid"
    and c: "conn' = conn\<lparr>db := (db conn)\<lparr>contact_methods :=
      contact_methods (db conn) @
      [\<lparr>m_id = Suc (methods_seq (db conn)), m_contact_id = cid, m_type = t', m_value = v'\<rparr>],
      methods_seq := Suc (methods_seq (db conn))\<rparr>\<rparr>"
    by (rule sql_insert_method_Inr)
  from assms(1) have fresh: "Suc (methods_seq (db conn)) \<notin> m_id ` set (contact_methods (db conn))"
    by (fastforce simp: wf_store_def)
  show ?thesis
    using assms(1,2) fresh below unfolding c wf_store_def
    by (simp add: le_SucI)
qed

lemma wf_insert_methods:
  assumes "insert_methods conn cid ms = Inr conn'"
    and "wf_store (db conn)" and "cid \<le> contacts_seq (db conn)"
  shows "wf_store (db conn')"
  using assms
proof (induction ms arbitrary: conn)
  case Nil
  then show ?case by simp
next
  case (Cons m ms)
  from Cons.prems(1) obtain t v conn1 where
    step: "sql_insert_method conn cid t v = Inr conn1" and
    rest: "insert_methods conn1 cid ms = Inr conn'"
    by (auto split: sum.splits)
  from wf_insert_method [OF Cons.prems(2,3) step]
  show ?case using Cons.IH [OF rest] by simp
qed

lemma wf_replace_methods:
  assumes "replace_methods conn cid ms = Inr conn'"
    and "wf_store (db conn)" and "cid \<le> contacts_seq (db conn)"
  shows "wf_store (db conn')"
  using assms
proof (induction ms arbitrary: conn)
  case Nil
  then show ?case by simp
next
  case (Cons m ms)
  from Cons.prems(1) consider
    (skip) "replace_methods conn cid ms = Inr conn'"
  | (ins) t v conn1 where "sql_insert_method conn cid t v = Inr conn1"
      "replace_methods conn1 cid ms = Inr conn'"
    by (auto split: sum.splits if_splits)
  then show ?case
  proof cases
    case skip
    then show ?thesis using Cons.IH Cons.prems(2,3) by simp
  next
    case ins
    from wf_insert_method [OF Cons.prems(2,3) ins(1)]
    show ?thesis using Cons.IH [OF ins(2)] by simp
  qed
qed

lemma c_id_after_update [simp]:
  "(\<lambda>x. c_id (if c_id x = cid then x\<lparr>c_name := name, c_address := address\<rparr> else x)) = c_id"
  "(\<lambda>x. c_id (if c_id x = cid then x\<lparr>c_is_favorite := fav\<rparr> else x)) = c_id"
  by (rule ext, simp)+

lemma wf_update_contact:
  assumes "wf_store (db conn)" and "sql_update_contact conn name address cid = Inr conn'"
  shows "wf_store (db conn')" and "contacts_seq (db conn') = contacts_seq (db conn)"
proof -
  from assms(2) have
    c: "conn' = conn\<lparr>db := (db conn)\<lparr>contacts :=
      map (\<lambda>c. if c_id c = cid then c\<lparr>c_name := name, c_address := address\<rparr> else c)
          (contacts (db conn))\<rparr>\<rparr>"
    by (simp add: sql_update_contact_Inr)
  show "wf_store (db conn')"
    using assms(1) unfolding c wf_store_def by (auto simp: o_def)
  show "contacts_seq (db conn') = contacts_seq (db conn)"
    unfolding c by simp
qed

lemma wf_update_favorite:
  assumes "wf_store (db conn)" and "fav = 0 \<or> fav = 1"
    and "sql_update_favorite conn fav cid = Inr conn'"
  shows "wf_store (db conn')"
proof -
  from assms(3) have
    c: "conn' = conn\<lparr>db := (db conn)\<lparr>contacts :=
      map (\<lambda>c. if c_id c = cid then c\<lparr>c_is_favorite := fav\<rparr> else c) (contacts (db conn))\<rparr>\<rparr>"
    by (simp add: sql_update_favorite_Inr [OF assms(2)])
  show ?thesis
    using assms(1,2) unfolding c wf_store_def by (auto simp: o_def)
qed

lemma wf_delete_methods:
  assumes "wf_store (db conn)" and "sql_delete_methods conn cid = Inr conn'"
  shows "wf_store (db conn')" and "contacts_seq (db conn') = contacts_seq (db conn)"
proof -
  from assms(2) have
    c: "conn' = conn\<lparr>db := (db conn)\<lparr>contact_methods :=
      filter (\<lambda>m. m_contact_id m \<noteq> cid) (contact_methods (db conn))\<rparr>\<rparr>"
    by (simp add: sql_delete_methods_Inr)
  show "wf_store (db conn')"
    using assms(1) unfolding c wf_store_def by (simp add: distinct_map_filter)
  show "contacts_seq (db conn') = contacts_seq (db conn)"
    unfolding c by simp
qed

lemma wf_delete_contact:
  assumes "wf_store (db conn)" and "sql_delete_contact conn cid = Inr (conn', n)"
  shows "wf_store (db conn')"
proof -
  from assms(2) have
    c: "conn' = conn\<lparr>db := (db conn)\<lparr>contacts := filter (\<lambda>c. c_id c \<noteq> cid) (contacts (db conn)),
      contact_methods :=
        (if foreign_keys conn \<and> 0 < length (filter (\<lambda>c. c_id c = cid) (contacts (db conn)))
         then filter (\<lambda>m. m_contact_id m \<noteq> cid) (contact_methods (db conn))
         else contact_methods (db conn))\<rparr>\<rparr>"
    by (simp add: sql_delete_contact_Inr)
  show ?thesis
    using assms(1) unfolding c wf_store_def by (auto simp: distinct_map_filter)
qed

lemma wf_insert_if:
  assumes "wf_store (db conn)" and "cid \<le> contacts_seq (db conn)"
    and "insert_if conn cid ty v = Inr conn'"
  shows "wf_store (db conn') \<and> cid \<le> contacts_seq (db conn')"
proof (cases "v = []")
  case True
  then show ?thesis using assms by (simp add: insert_if_def)
next
  case False
  then have "sql_insert_method conn cid (JStr (ustr ty)) (JStr v) = Inr conn'"
    using assms(3) by (simp add: insert_if_def)
  from wf_insert_method [OF assms(1,2) this] show ?thesis .
qed

lemma import_rows_skip:
  "row = [] \<or> field fieldnames row col_name = [] \<Longrightarrow>
   import_rows fieldnames conn count (row # rows) = import_rows fieldnames conn count rows"
  by (auto simp: Let_def)

lemma import_rows_keep:
  assumes "row \<noteq> []" and "field fieldnames row col_name \<noteq> []"
  shows "import_rows fieldnames conn count (row # rows) =
     (case sql_insert_contact conn (field fieldnames row col_name)
             (if field fieldnames row col_address \<noteq> [] then Some (field fieldnames row col_address)
              else None) of
        Inl e \<Rightarrow> Inl e
      | Inr (conn1, cid) \<Rightarrow>
          (case insert_if conn1 cid ''phone'' (field fieldnames row col_phone) of
             Inl e \<Rightarrow> Inl e
           | Inr conn2 \<Rightarrow>
               (case insert_if conn2 cid ''email'' (field fieldnames row col_email) of
                  Inl e \<Rightarrow> Inl e
                | Inr conn3 \<Rightarrow>
                    (case insert_if conn3 cid ''address'' (field fieldnames row col_address) of
                       Inl e \<Rightarrow> Inl e
                     | Inr conn4 \<Rightarrow> import_rows fieldnames conn4 (count + 1) rows))))"
  using assms by (simp add: Let_def)

lemma wf_import_rows:
  assumes "import_rows fieldnames conn count rows = Inr (conn', n)" and "wf_store (db conn)"
  shows "wf_store (db conn')"
  using assms
proof (induction rows arbitrary: conn count)
  case Nil
  then show ?case by simp
next
  case (Cons row rows)
  show ?case
  proof (cases "row = [] \<or> field fieldnames row col_name = []")
    case True
    then have "import_rows fieldnames conn count rows = Inr (conn', n)"
      using Cons.prems(1) by (simp only: import_rows_skip)
    then show ?thesis using Cons.IH Cons.prems(2) by blast
  next
    case False
    then have ne: "row \<noteq> []" "field fieldnames row col_name \<noteq> []" by simp_all
    let ?address = "field fieldnames row col_address"
    from Cons.prems(1) obtain conn1 cid conn2 conn3 conn4 where
      ic: "sql_insert_contact conn (field fieldnames row col_name)
        (if ?address \<noteq> [] then Some ?address else None) = Inr (conn1, cid)" and
      steps: "insert_if conn1 cid ''phone'' (field fieldnames row col_phone) = Inr conn2"
        "insert_if conn2 cid ''email'' (field fieldnames row col_email) = Inr conn3"
        "insert_if conn3 cid ''address'' ?address = Inr conn4"
        "import_rows fieldnames conn4 (count + 1) rows = Inr (conn', n)"
      unfolding import_rows_keep [OF ne] by (auto split: sum.splits)
    from wf_insert_contact [OF Cons.prems(2) ic]
    have "wf_store (db conn1) \<and> cid \<le> contacts_seq (db conn1)" by simp
    then have "wf_store (db conn2) \<and> cid \<le> contacts_seq (db conn2)"
      using wf_insert_if steps(1) by blast
    then have "wf_store (db conn3) \<and> cid \<le> contacts_seq (db conn3)"
      using wf_insert_if steps(2) by blast
    then have "wf_store (db conn4)"
      using wf_insert_if steps(3) by blast
    then show ?thesis using Cons.IH [OF steps(4)] by simp
  qed
qed

lemma wf_add_contact: "wf_store s \<Longrightarrow> wf_store (snd (add_contact repr s data))"
proof -
  assume wf: "wf_store s"
  have step: "wf_store (db conn2)"
    if "sql_insert_contact (connect s) name address = Inr (conn1, cid)"
      and "insert_methods conn1 cid ms = Inr conn2" for name address conn1 cid ms conn2
  proof -
    have "wf_store (db (connect s))" using wf by simp
    from wf_insert_contact [OF this that(1)] wf_insert_methods [OF that(2)]
    show ?thesis by simp
  qed
  show ?thesis
    using wf step
    by (auto simp: add_contact_def Let_def commit_def
        split: if_splits json.splits sum.splits option.splits prod.splits)
qed

lemma wf_update_contact_handler:
  "wf_store s \<Longrightarrow> wf_store (snd (update_contact repr s cid data))"
proof -
  assume wf: "wf_store s"
  have step: "wf_store (db conn3)"
    if "sql_select_exists (connect s) cid = Inr (Some ex)"
      and "sql_update_contact (connect s) name address cid = Inr conn1"
      and "sql_delete_methods conn1 cid = Inr conn2"
      and "replace_methods conn2 cid ms = Inr conn3"
    for ex name address ms conn1 conn2 conn3
  proof -
    from that(1) have "cid \<in> c_id ` set (contacts s)"
      by (simp add: sql_select_exists_Some)
    then have le: "cid \<le> contacts_seq s" using wf by (auto simp: wf_store_def)
    have w0: "wf_store (db (connect s))" using wf by simp
    note w1 = wf_update_contact [OF w0 that(2)]
    note w2 = wf_delete_methods [OF w1(1) that(3)]
    have "cid \<le> contacts_seq (db conn2)" using le w1(2) w2(2) by simp
    from wf_replace_methods [OF that(4) w2(1) this] show ?thesis .
  qed
  show ?thesis
    using wf step
    by (auto simp: update_contact_def Let_def commit_def
        split: if_splits json.splits sum.splits option.splits prod.splits)
qed

lemma wf_delete_contact_handler: "wf_store s \<Longrightarrow> wf_store (snd (delete_contact s cid))"
proof -
  assume wf: "wf_store s"
  then have w: "wf_store (db (connect s))" by simp
  show ?thesis
    using wf wf_delete_contact [OF w]
    by (auto simp: delete_contact_def commit_def Let_def split: sum.splits prod.splits)
qed

lemma wf_toggle_favorite: "wf_store s \<Longrightarrow> wf_store (snd (toggle_favorite s cid))"
proof -
  assume wf: "wf_store s"
  then have w: "wf_store (db (connect s))" by simp
  have "wf_store (db conn')"
    if "sql_update_favorite (connect s) fav cid = Inr conn'" "fav = 0 \<or> fav = 1" for fav conn'
    using wf_update_favorite [OF w that(2,1)] .
  then show ?thesis using wf
    by (auto simp: toggle_favorite_def commit_def Let_def split: sum.splits option.splits)
qed

lemma wf_import_contacts: "wf_store s \<Longrightarrow> wf_store (snd (import_contacts s files))"
proof -
  assume wf: "wf_store s"
  then have w: "wf_store (db (connect s))" by simp
  show ?thesis
    using wf wf_import_rows [OF _ w]
    by (auto simp: import_contacts_def Let_def commit_def
        split: if_splits csv.splits sum.splits option.splits prod.splits)
qed

lemma reachable_wf_store: "reachable s \<Longrightarrow> wf_store s"
proof (induction rule: reachable.induct)
  case reach_init
  show ?case by (rule wf_store_init)
qed (simp_all add: wf_add_contact wf_update_contact_handler wf_delete_contact_handler
    wf_toggle_favorite wf_import_contacts)

text \<open>The id of a stored row fits SQLite's integers.\<close>

lemma wf_store_id_fits:
  "wf_store s \<Longrightarrow> cid \<in> c_id ` set (contacts s) \<Longrightarrow> cid < 2 ^ 63"
  using max_rowid_fits by (fastforce simp: wf_store_def)

section \<open>Create\<close>

lemma check_methods_objects:
  assumes "\<forall>m \<in> set ms. is_object m"
  shows "check_methods ms =
           (if \<forall>m \<in> set ms. complete m then None else Some (ValidationError BadMethod))"
  using assms
proof (induction ms)
  case Nil
  then show ?case by simp
next
  case (Cons m ms)
  then obtain d where d: "m = JDict d" by (auto simp: is_object_def split: json.splits)
  show ?case
    using Cons d
    by (auto simp: obj_get_def complete_def entry_type_def entry_value_def)
qed

lemma insert_methods_entries:
  assumes "\<forall>m \<in> set ms. is_entry m \<and> complete m" and "\<not> foreign_keys conn"
    and "cid < 2 ^ 63" and "room (methods_seq (db conn)) (length ms)"
  shows "insert_methods conn cid ms = Inr (add_rows conn cid (map entry_pair ms))"
  using assms
proof (induction ms arbitrary: conn)
  case Nil
  then show ?case by simp
next
  case (Cons m ms)
  then have m: "is_entry m" "complete m" and ms: "\<forall>m \<in> set ms. is_entry m \<and> complete m"
    by simp_all
  from m obtain d t v where d: "m = JDict d" "map_of d (ustr ''type'') = Some (JStr t)"
    "map_of d (ustr ''value'') = Some (JStr v)" "encodable t" "encodable v"
    by (rule complete_entry_fields)
  have pair: "entry_pair m = (t, v)"
    using d by (simp add: entry_pair_def entry_type_def entry_value_def dict_get_def text_of_def)
  from Cons.prems(4) have r: "room (methods_seq (db conn)) (Suc (length ms))" by simp
  then have below: "methods_seq (db conn) < max_rowid"
    using room_id_fits by blast
  let ?conn1 = "add_rows conn cid [(t, v)]"
  have r1: "room (methods_seq (db ?conn1)) (length ms)"
    using room_Suc [OF r] by simp
  have fk1: "\<not> foreign_keys ?conn1" using Cons.prems(2) by simp
  have "insert_methods conn cid (m # ms) = insert_methods ?conn1 cid ms"
    using d by (simp add: obj_index_def insert_method_text [OF Cons.prems(2,3) d(4,5) below])
  also have "\<dots> = Inr (add_rows ?conn1 cid (map entry_pair ms))"
    by (rule Cons.IH [OF ms fk1 Cons.prems(3) r1])
  finally show ?case using pair by (simp add: add_rows_Cons)
qed

lemma add_contact_entries:
  assumes name: "map_of d (ustr ''name'') = Some (JStr n)" "strip n \<noteq> []"
    and ms: "map_of d (ustr ''methods'') = Some (JList ms)" "ms \<noteq> []"
      "\<forall>m \<in> set ms. is_entry m \<and> complete m"
    and enc: "encodable n" "encodable_opt (get_address repr d)"
    and room: "room (contacts_seq s) 1" "room (methods_seq s) (length ms)"
  shows "add_contact repr s (JDict d) =
           (Inr \<lparr>v_id = Suc (contacts_seq s), v_name = strip n, v_address = get_address repr d,
                 v_is_favorite = False, v_methods = ms\<rparr>,
            created_store s (strip n) (get_address repr d) (map entry_pair ms))"
proof -
  have d: "d \<noteq> []" using name(1) by auto
  have obj: "\<forall>m \<in> set ms. is_object m" using ms(3) by (simp add: is_entry_def)
  have chk: "check_methods ms = None"
    using ms(3) by (simp add: check_methods_objects [OF obj])
  from room(1) have below: "contacts_seq s < max_rowid" and id: "Suc (contacts_seq s) < 2 ^ 63"
    using room_id_fits [of "contacts_seq s" 1] by simp_all
  define conn1 where "conn1 = (connect s)\<lparr>db := s\<lparr>contacts := contacts s @
        [\<lparr>c_id = Suc (contacts_seq s), c_name = strip n, c_address = get_address repr d,
          c_is_favorite = 0\<rparr>], contacts_seq := Suc (contacts_seq s)\<rparr>\<rparr>"
  have ic: "sql_insert_contact (connect s) (strip n) (get_address repr d)
      = Inr (conn1, Suc (contacts_seq s))"
    using enc below by (simp add: sql_insert_contact_Inr encodable_strip conn1_def)
  have fk: "\<not> foreign_keys conn1" by (simp add: conn1_def)
  have r: "room (methods_seq (db conn1)) (length ms)" using room(2) by (simp add: conn1_def)
  have im: "insert_methods conn1 (Suc (contacts_seq s)) ms
      = Inr (add_rows conn1 (Suc (contacts_seq s)) (map entry_pair ms))"
    using ms(3) fk id r by (rule insert_methods_entries)
  have st: "commit (add_rows conn1 (Suc (contacts_seq s)) ps)
      = created_store s (strip n) (get_address repr d) ps" for ps
    by (simp add: conn1_def commit_def add_rows_def connect_def created_store_def)
  show ?thesis
    using d name(2) ms(2) unfolding add_contact_def
    by (simp add: get_name_str [OF name(1)] dict_get_def ms(1) chk ic im st Let_def)
qed

lemma get_name_name_of: "name_of d = Some n \<Longrightarrow> get_name d = Inr n"
  by (auto simp: name_of_def get_name_def dict_get_def strip_def split: option.splits json.splits)

text \<open>
  Claim C6. A create request with a non-empty name and a non-empty list of complete
  method entries succeeds; the view it returns is not a favorite and carries the
  methods of the request as they were given, so as many as the request had. The new
  contact gets the next id and is stored with the favorite flag 0, and one method row
  is stored per entry. The strings of the request have no lone surrogate and the two
  tables have room for the new rows.
\<close>

theorem create_returns_not_favorite:
  assumes "map_of d (ustr ''name'') = Some (JStr n)" and "strip n \<noteq> []"
    and "map_of d (ustr ''methods'') = Some (JList ms)" and "ms \<noteq> []"
    and "\<forall>m \<in> set ms. is_entry m \<and> complete m"
    and "encodable n" and "encodable_opt (get_address repr d)"
    and "room (contacts_seq s) 1" and "room (methods_seq s) (length ms)"
  shows "\<exists>v s'. add_contact repr s (JDict d) = (Inr v, s') \<and>
           v_is_favorite v = False \<and>
           length (v_methods v) = length ms \<and>
           v_methods v = ms \<and>
           v_id v = Suc (contacts_seq s) \<and>
           contacts s' = contacts s @ [\<lparr>c_id = v_id v, c_name = strip n,
                                         c_address = get_address repr d, c_is_favorite = 0\<rparr>] \<and>
           length (contact_methods s') = length (contact_methods s) + length ms"
  unfolding add_contact_entries [OF assms, of ]
  by (simp add: created_store_def method_rows_def)

theorem create_returns_not_favorite_witness:
  "map_of sample_fields (ustr ''name'') = Some (JStr (ustr ''Ann'')) \<and>
   strip (ustr ''Ann'') \<noteq> [] \<and>
   map_of sample_fields (ustr ''methods'') = Some (JList [sample_method]) \<and>
   [sample_method] \<noteq> [] \<and>
   is_entry sample_method \<and> complete sample_method \<and>
   encodable (ustr ''Ann'') \<and>
   encodable_opt (get_address no_repr sample_fields) \<and>
   room (contacts_seq init_db) 1 \<and>
   room (methods_seq init_db) (length [sample_method]) \<and>
   (\<exists>v s'. add_contact no_repr init_db (JDict sample_fields) = (Inr v, s') \<and>
      v_is_favorite v = False \<and> length (v_methods v) = 1 \<and> v_id v = 1)"
proof -
  have h1: "map_of sample_fields (ustr ''name'') = Some (JStr (ustr ''Ann''))"
    by (simp add: sample_fields_def ustr_def)
  have h2: "strip (ustr ''Ann'') \<noteq> []"
    by (simp add: strip_def isspace_def ustr_def)
  have h3: "map_of sample_fields (ustr ''methods'') = Some (JList [sample_method])"
    by (simp add: sample_fields_def ustr_def)
  have h4: "[sample_method] \<noteq> []" by simp
  have e: "is_entry sample_method" "complete sample_method"
    by (simp_all add: sample_method_def is_entry_def complete_def is_object_def is_field_def
        entry_type_def entry_value_def dict_get_def ustr_def encodable_def scalar_value_def)
  then have h5: "\<forall>m \<in> set [sample_method]. is_entry m \<and> complete m" by simp
  have h6: "encodable (ustr ''Ann'')"
    by (simp add: encodable_def scalar_value_def ustr_def)
  have h7: "encodable_opt (get_address no_repr sample_fields)"
    by (simp add: encodable_opt_def get_address_def dict_get_def sample_fields_def ustr_def)
  have h8: "room (contacts_seq init_db) 1" "room (methods_seq init_db) (length [sample_method])"
    by (simp_all add: room_def max_rowid_def init_db_def)
  from create_returns_not_favorite [OF h1 h2 h3 h4 h5 h6 h7 h8]
  obtain v s' where "add_contact no_repr init_db (JDict sample_fields) = (Inr v, s')"
    "v_is_favorite v = False" "length (v_methods v) = 1" "v_id v = 1"
    by (auto simp: init_db_def)
  with h1 h2 h3 h4 e h6 h7 h8 show ?thesis by - (intro conjI exI, assumption+)
qed

text \<open>
  Claim C5. A create request is refused with a validation error and leaves the store
  as it was when the name is empty after trimming, or the \<open>methods\<close> field is absent, is
  not a list, or is the empty list, or some entry of the list is incomplete. The
  handler returns these errors before it opens its connection. The body is an object
  whose name, when present, is a string, and in the last case the entries are objects.
\<close>

theorem create_rejects_invalid_input:
  assumes "name_of d = Some name"
    and "name = []
       \<or> map_of d (ustr ''methods'') = None
       \<or> (\<exists>j. map_of d (ustr ''methods'') = Some j \<and> \<not> is_list j)
       \<or> map_of d (ustr ''methods'') = Some (JList [])
       \<or> (\<exists>ms. map_of d (ustr ''methods'') = Some (JList ms) \<and>
                (\<forall>m \<in> set ms. is_object m) \<and> (\<exists>m \<in> set ms. \<not> complete m))"
  shows "\<exists>r. add_contact repr s (JDict d) = (Inl (ValidationError r), s)"
proof -
  note n = get_name_name_of [OF assms(1)]
  show ?thesis
  proof (cases "d = [] \<or> name = []")
    case True
    then show ?thesis by (auto simp: add_contact_def n Let_def)
  next
    case False
    then have ne: "d \<noteq> []" "name \<noteq> []" by simp_all
    from assms(2) ne(2) consider
      (missing) "map_of d (ustr ''methods'') = None"
    | (notlist) j where "map_of d (ustr ''methods'') = Some j" "\<not> is_list j"
    | (empty) "map_of d (ustr ''methods'') = Some (JList [])"
    | (bad) ms where "map_of d (ustr ''methods'') = Some (JList ms)" "ms \<noteq> []"
        "\<forall>m \<in> set ms. is_object m" "\<exists>m \<in> set ms. \<not> complete m"
      by auto
    then show ?thesis
    proof cases
      case missing
      then show ?thesis using ne by (simp add: add_contact_def n dict_get_def Let_def)
    next
      case notlist
      then show ?thesis using ne
        by (cases j) (simp_all add: add_contact_def n dict_get_def is_list_def Let_def)
    next
      case empty
      then show ?thesis using ne by (simp add: add_contact_def n dict_get_def Let_def)
    next
      case bad
      have "check_methods ms = Some (ValidationError BadMethod)"
        using bad(4) by (simp add: check_methods_objects [OF bad(3)])
      then show ?thesis using ne bad(1,2)
        by (simp add: add_contact_def n dict_get_def Let_def)
    qed
  qed
qed

theorem create_rejects_invalid_input_witness:
  "name_of blank_name = Some [] \<and>
   (\<exists>r. add_contact no_repr sample_store (JDict blank_name) = (Inl (ValidationError r), sample_store)) \<and>
   name_of name_only = Some (ustr ''Bob'') \<and>
   map_of name_only (ustr ''methods'') = None \<and>
   (\<exists>r. add_contact no_repr sample_store (JDict name_only) = (Inl (ValidationError r), sample_store)) \<and>
   map_of methods_text (ustr ''methods'') = Some (JStr (ustr ''phone'')) \<and>
   \<not> is_list (JStr (ustr ''phone'')) \<and>
   (\<exists>r. add_contact no_repr sample_store (JDict methods_text) = (Inl (ValidationError r), sample_store)) \<and>
   map_of methods_empty (ustr ''methods'') = Some (JList []) \<and>
   (\<exists>r. add_contact no_repr sample_store (JDict methods_empty) = (Inl (ValidationError r), sample_store)) \<and>
   map_of methods_partial (ustr ''methods'') = Some (JList [sample_method, partial_method]) \<and>
   is_object sample_method \<and> is_object partial_method \<and> \<not> complete partial_method \<and>
   (\<exists>r. add_contact no_repr sample_store (JDict methods_partial) = (Inl (ValidationError r), sample_store))"
proof -
  have n1: "name_of blank_name = Some []"
    by (simp add: name_of_def blank_name_def strip_def isspace_def ustr_def)
  have n2: "name_of name_only = Some (ustr ''Bob'')"
    by (simp add: name_of_def name_only_def strip_def isspace_def ustr_def)
  have n3: "name_of methods_text = Some (ustr ''Bob'')"
    by (simp add: name_of_def methods_text_def strip_def isspace_def ustr_def)
  have n4: "name_of methods_empty = Some (ustr ''Bob'')"
    by (simp add: name_of_def methods_empty_def strip_def isspace_def ustr_def)
  have n5: "name_of methods_partial = Some (ustr ''Bob'')"
    by (simp add: name_of_def methods_partial_def strip_def isspace_def ustr_def)
  have m2: "map_of name_only (ustr ''methods'') = None"
    by (simp add: name_only_def ustr_def)
  have m3: "map_of methods_text (ustr ''methods'') = Some (JStr (ustr ''phone''))"
    "\<not> is_list (JStr (ustr ''phone''))"
    by (simp_all add: methods_text_def is_list_def ustr_def)
  have m4: "map_of methods_empty (ustr ''methods'') = Some (JList [])"
    by (simp add: methods_empty_def ustr_def)
  have m5: "map_of methods_partial (ustr ''methods'') = Some (JList [sample_method, partial_method])"
    by (simp add: methods_partial_def ustr_def)
  have o: "is_object sample_method" "is_object partial_method" "\<not> complete partial_method"
    by (simp_all add: sample_method_def partial_method_def is_object_def complete_def
        entry_type_def entry_value_def dict_get_def ustr_def)
  have r1: "\<exists>r. add_contact no_repr sample_store (JDict blank_name) = (Inl (ValidationError r), sample_store)"
    by (rule create_rejects_invalid_input [OF n1]) simp
  have r2: "\<exists>r. add_contact no_repr sample_store (JDict name_only) = (Inl (ValidationError r), sample_store)"
    by (rule create_rejects_invalid_input [OF n2]) (simp add: m2)
  have r3: "\<exists>r. add_contact no_repr sample_store (JDict methods_text) = (Inl (ValidationError r), sample_store)"
    by (rule create_rejects_invalid_input [OF n3]) (simp add: m3)
  have r4: "\<exists>r. add_contact no_repr sample_store (JDict methods_empty) = (Inl (ValidationError r), sample_store)"
    by (rule create_rejects_invalid_input [OF n4]) (simp add: m4)
  have r5: "\<exists>r. add_contact no_repr sample_store (JDict methods_partial) = (Inl (ValidationError r), sample_store)"
    by (rule create_rejects_invalid_input [OF n5]) (use m5 o in auto)
  from n1 n2 m2 m3 m4 m5 o r1 r2 r3 r4 r5 show ?thesis by (intro conjI)
qed

section \<open>Toggle favorite\<close>

lemma filter_id_distinct:
  assumes "distinct (map c_id cs)" and "c \<in> set cs"
  shows "filter (\<lambda>x. c_id x = c_id c) cs = [c]"
  using assms
proof (induction cs)
  case Nil
  then show ?case by simp
next
  case (Cons a cs)
  show ?case
  proof (cases "a = c")
    case True
    then have "c_id c \<notin> c_id ` set cs" using Cons.prems(1) by simp
    then have "\<forall>x \<in> set cs. c_id x \<noteq> c_id c" by (metis imageI)
    then have "filter (\<lambda>x. c_id x = c_id c) cs = []" by (simp add: filter_empty_conv)
    then show ?thesis using True by simp
  next
    case False
    then have "c \<in> set cs" using Cons.prems(2) by simp
    moreover from this have "c_id a \<noteq> c_id c" using Cons.prems(1) by auto
    ultimately show ?thesis using Cons by simp
  qed
qed

lemma toggle_favorite_existing:
  assumes "distinct (map c_id (contacts s))" and "c \<in> set (contacts s)" and "c_id c < 2 ^ 63"
  shows "toggle_favorite s (c_id c) =
           (Inr (c_is_favorite c \<noteq> 1),
            set_favorite s (c_id c) (if c_is_favorite c = 1 then 0 else 1))"
proof -
  have "sql_select_favorite (connect s) (c_id c) = Inr (Some [c_is_favorite c])"
    using assms(3) by (simp add: sql_select_favorite_def filter_id_distinct [OF assms(1,2)])
  moreover have "sql_update_favorite (connect s) fav (c_id c) =
      Inr ((connect s)\<lparr>db := set_favorite s (c_id c) fav\<rparr>)" if "fav = 0 \<or> fav = 1" for fav
    using assms(3) by (simp add: sql_update_favorite_Inr [OF that] set_favorite_def)
  ultimately show ?thesis
    by (simp add: toggle_favorite_def commit_def Let_def)
qed

lemma toggle_favorite_missing:
  assumes "cid \<notin> c_id ` set (contacts s)" and "cid < 2 ^ 63"
  shows "toggle_favorite s cid = (Inl NotFoundError, s)"
proof -
  from assms(1) have "filter (\<lambda>c. c_id c = cid) (contacts s) = []"
    by (auto simp: filter_empty_conv)
  then show ?thesis
    using assms(2) by (simp add: toggle_favorite_def sql_select_favorite_def)
qed

text \<open>An id that does not fit SQLite's integers cannot be bound: the handler raises.\<close>

lemma toggle_favorite_overflow:
  "2 ^ 63 \<le> cid \<Longrightarrow> toggle_favorite s cid = (Inl (InternalError OverflowError), s)"
  by (simp add: toggle_favorite_def sql_select_favorite_def bind_id_def)

lemma set_favorite_back:
  assumes "distinct (map c_id (contacts s))" and "c \<in> set (contacts s)"
  shows "set_favorite (set_favorite s (c_id c) fav) (c_id c) (c_is_favorite c) = s"
proof -
  have "map ((\<lambda>x. if c_id x = c_id c then x\<lparr>c_is_favorite := c_is_favorite c\<rparr> else x) \<circ>
             (\<lambda>x. if c_id x = c_id c then x\<lparr>c_is_favorite := fav\<rparr> else x)) cs = cs"
    if "distinct (map c_id cs)" "set cs \<subseteq> set (contacts s)" for cs
    using that
  proof (induction cs)
    case Nil
    then show ?case by simp
  next
    case (Cons a cs)
    have "a = c" if "c_id a = c_id c"
      using that assms Cons.prems(2) by (auto simp: distinct_map inj_on_def)
    then show ?case using Cons by auto
  qed
  from this [OF assms(1)] show ?thesis
    by (simp add: set_favorite_def)
qed

text \<open>
  Claim C7. On a well-formed store, toggling the favorite flag of an existing contact
  succeeds and flips the stored flag, and toggling it once more gives back exactly the
  store before the first toggle; toggling an id without a contact, one that fits
  SQLite's integers as every id of a row does, is reported as not found and leaves the
  store as it was.
\<close>

theorem toggle_favorite_involution:
  assumes "wf_store s"
  shows "(cid \<in> c_id ` set (contacts s) \<longrightarrow>
            (\<exists>b s1. toggle_favorite s cid = (Inr b, s1) \<and>
                     map c_is_favorite (filter (\<lambda>c. c_id c = cid) (contacts s1)) = [if b then 1 else 0] \<and>
                     map c_is_favorite (filter (\<lambda>c. c_id c = cid) (contacts s)) = [if b then 0 else 1] \<and>
                     toggle_favorite s1 cid = (Inr (\<not> b), s))) \<and>
         (cid \<notin> c_id ` set (contacts s) \<and> cid < 2 ^ 63 \<longrightarrow>
            toggle_favorite s cid = (Inl NotFoundError, s))"
proof (intro conjI impI)
  assume "cid \<notin> c_id ` set (contacts s) \<and> cid < 2 ^ 63"
  then show "toggle_favorite s cid = (Inl NotFoundError, s)"
    by (simp add: toggle_favorite_missing)
next
  assume ex: "cid \<in> c_id ` set (contacts s)"
  then obtain c where c: "c \<in> set (contacts s)" and cid: "cid = c_id c" by auto
  from assms have d: "distinct (map c_id (contacts s))"
    and fav: "c_is_favorite c = 0 \<or> c_is_favorite c = 1"
    using c by (auto simp: wf_store_def)
  have fits: "c_id c < 2 ^ 63"
    using wf_store_id_fits [OF assms ex] by (simp add: cid)
  define new :: int where "new = (if c_is_favorite c = 1 then 0 else 1)"
  define s1 where "s1 = set_favorite s cid new"
  define c1 where "c1 = c\<lparr>c_is_favorite := new\<rparr>"
  have t1: "toggle_favorite s cid = (Inr (c_is_favorite c \<noteq> 1), s1)"
    using toggle_favorite_existing [OF d c fits] by (simp add: cid s1_def new_def)
  have ids: "map c_id (contacts s1) = map c_id (contacts s)"
    by (simp add: s1_def set_favorite_def o_def cong: if_cong)
  have d1: "distinct (map c_id (contacts s1))" using d ids by simp
  have c1: "c1 \<in> set (contacts s1)" "c_id c1 = cid" "c_is_favorite c1 = new"
    using c by (auto simp: s1_def set_favorite_def c1_def cid)
  have fits1: "c_id c1 < 2 ^ 63" using fits by (simp add: c1 cid)
  have flip: "(if new = 1 then 0 else 1) = c_is_favorite c"
    using fav by (auto simp: new_def)
  have "toggle_favorite s1 cid = (Inr (new \<noteq> 1), set_favorite s1 cid (c_is_favorite c))"
    using toggle_favorite_existing [OF d1 c1(1) fits1] by (simp add: c1 flip)
  also have "set_favorite s1 cid (c_is_favorite c) = s"
    unfolding s1_def cid by (rule set_favorite_back [OF d c])
  finally have t2: "toggle_favorite s1 cid = (Inr (\<not> (c_is_favorite c \<noteq> 1)), s)"
    using fav by (auto simp: new_def)
  have f0: "map c_is_favorite (filter (\<lambda>x. c_id x = cid) (contacts s)) = [c_is_favorite c]"
    unfolding cid by (simp add: filter_id_distinct [OF d c])
  have f1: "map c_is_favorite (filter (\<lambda>x. c_id x = cid) (contacts s1)) = [new]"
    using filter_id_distinct [OF d1 c1(1)] by (simp add: c1)
  show "\<exists>b s1. toggle_favorite s cid = (Inr b, s1) \<and>
          map c_is_favorite (filter (\<lambda>c. c_id c = cid) (contacts s1)) = [if b then 1 else 0] \<and>
          map c_is_favorite (filter (\<lambda>c. c_id c = cid) (contacts s)) = [if b then 0 else 1] \<and>
          toggle_favorite s1 cid = (Inr (\<not> b), s)"
    using t1 t2 f0 f1 fav by (intro exI [of _ "c_is_favorite c \<noteq> 1"] exI [of _ s1]) (auto simp: new_def)
qed

theorem toggle_favorite_involution_witness:
  "wf_store sample_store \<and>
   1 \<in> c_id ` set (contacts sample_store) \<and>
   2 \<notin> c_id ` set (contacts sample_store) \<and> (2 :: nat) < 2 ^ 63 \<and>
   (\<exists>b s1. toggle_favorite sample_store 1 = (Inr b, s1) \<and>
            toggle_favorite s1 1 = (Inr (\<not> b), sample_store)) \<and>
   toggle_favorite sample_store 2 = (Inl NotFoundError, sample_store)"
proof -
  have w: "wf_store sample_store" by (simp add: sample_store_eq wf_store_def max_rowid_def)
  have i1: "1 \<in> c_id ` set (contacts sample_store)" by (simp add: sample_store_eq)
  have i2: "2 \<notin> c_id ` set (contacts sample_store)" by (simp add: sample_store_eq)
  have i3: "(2 :: nat) < 2 ^ 63" by simp
  from toggle_favorite_involution [OF w, of 1] i1
  obtain b s1 where "toggle_favorite sample_store 1 = (Inr b, s1)"
    "toggle_favorite s1 1 = (Inr (\<not> b), sample_store)"
    by blast
  moreover from toggle_favorite_involution [OF w, of 2] i2 i3
  have "toggle_favorite sample_store 2 = (Inl NotFoundError, sample_store)"
    by blast
  ultimately show ?thesis using w i1 i2 i3 by - (intro conjI exI, assumption+)
qed

section \<open>Import\<close>

lemma field_Nil [simp]: "field fieldnames [] col = []"
proof -
  have "map_of (rev (zip fs (replicate (length fs) None))) col \<noteq> Some (Some v)" for fs :: "pystr list" and v :: pystr
  proof
    assume "map_of (rev (zip fs (replicate (length fs) None))) col = Some (Some v)"
    then have "(col, Some v) \<in> set (zip fs (replicate (length fs) None))"
      by (auto dest: map_of_SomeD)
    then have "Some v \<in> set (replicate (length fs) (None :: pystr option))"
      by (rule set_zip_rightD)
    then show False by simp
  qed
  then show ?thesis
    by (auto simp: field_def row_get_def strip_def split: option.splits)
qed

lemma method_rows_append:
  "method_rows seq cid (ps @ qs) = method_rows seq cid ps @ method_rows (seq + length ps) cid qs"
  by (induction ps arbitrary: seq) auto

lemma add_rows_append:
  "add_rows (add_rows conn cid ps) cid qs = add_rows conn cid (ps @ qs)"
  by (simp add: add_rows_def method_rows_append add.assoc)

lemma row_get_in_row:
  assumes "row_get fieldnames row col = Some v"
  shows "v \<in> set row"
proof -
  let ?cells = "map Some row @ replicate (length fieldnames - length row) None"
  from assms have "map_of (rev (zip fieldnames ?cells)) col = Some (Some v)"
    by (simp add: row_get_def split: option.splits)
  then have "(col, Some v) \<in> set (zip fieldnames ?cells)"
    by (auto dest: map_of_SomeD)
  then have "Some v \<in> set ?cells"
    by (rule set_zip_rightD)
  then show ?thesis by auto
qed

lemma encodable_field:
  assumes "list_all encodable row"
  shows "encodable (field fieldnames row col)"
proof (cases "row_get fieldnames row col")
  case None
  then show ?thesis by (simp add: field_def strip_def)
next
  case (Some v)
  then have "v \<in> set row" by (rule row_get_in_row)
  then have "encodable v" using assms by (simp add: list_all_iff)
  then show ?thesis using Some by (simp add: field_def encodable_strip)
qed

lemma encodable_ustr: "encodable (ustr s)"
proof -
  have small: "of_char c < (256 :: nat)" for c
  proof -
    have "(of_char c :: nat) = of_char c mod 256" by simp
    also have "\<dots> < 256" by (rule mod_less_divisor) simp
    finally show ?thesis .
  qed
  have "scalar_value (of_char c)" for c
  proof -
    have "(of_char c :: nat) < 55296" using small [of c] by linarith
    then show ?thesis by (simp add: scalar_value_def)
  qed
  then show ?thesis
    by (simp add: encodable_def ustr_def list_all_iff)
qed

lemma insert_if_tagged:
  assumes "\<not> foreign_keys conn" and "cid < 2 ^ 63" and "encodable v"
    and "room (methods_seq (db conn)) (length (tagged ty v))"
  shows "insert_if conn cid ty v = Inr (add_rows conn cid (tagged ty v))"
proof (cases "v = []")
  case True
  then show ?thesis by (simp add: insert_if_def tagged_def)
next
  case False
  then have "methods_seq (db conn) < max_rowid"
    using assms(4) room_id_fits [of "methods_seq (db conn)" 1] by (simp add: tagged_def)
  from insert_method_text [OF assms(1,2) encodable_ustr assms(3) this]
  show ?thesis using False by (simp add: insert_if_def tagged_def)
qed

lemma room_add: "room seq (m + n) \<Longrightarrow> room seq m \<and> room (seq + m) n"
  by (simp add: room_def)

lemma import_rows_imported:
  assumes "\<not> foreign_keys conn" and "decoded records"
    and "room (contacts_seq (db conn)) (length (named_rows fieldnames records))"
    and "room (methods_seq (db conn))
           (length (concat (map (row_methods fieldnames) (named_rows fieldnames records))))"
  shows "import_rows fieldnames conn count records =
           Inr (conn\<lparr>db := imported fieldnames (db conn) (named_rows fieldnames records)\<rparr>,
                count + length (named_rows fieldnames records))"
  using assms
proof (induction records arbitrary: conn count)
  case Nil
  then show ?case by (simp add: named_rows_def)
next
  case (Cons row records)
  from Cons.prems(2) have enc: "list_all encodable row" and dec: "decoded records"
    by (simp_all add: decoded_def)
  show ?case
  proof (cases "field fieldnames row col_name = []")
    case True
    then have "named_rows fieldnames (row # records) = named_rows fieldnames records"
      by (simp add: named_rows_def)
    then show ?thesis
      using Cons.IH [OF Cons.prems(1) dec] Cons.prems(3,4) True
      by (simp add: import_rows_skip)
  next
    case False
    then have ne: "row \<noteq> []" by auto
    have named: "named_rows fieldnames (row # records) = row # named_rows fieldnames records"
      using False by (simp add: named_rows_def)
    let ?name = "field fieldnames row col_name"
    let ?cid = "Suc (contacts_seq (db conn))"
    let ?rest = "named_rows fieldnames records"
    from Cons.prems(3) have rc: "room (contacts_seq (db conn)) (Suc (length ?rest))"
      by (simp add: named)
    then have below: "contacts_seq (db conn) < max_rowid" and id: "?cid < 2 ^ 63"
      using room_id_fits by blast+
    from Cons.prems(4) have
      "room (methods_seq (db conn))
         (length (row_methods fieldnames row) + length (concat (map (row_methods fieldnames) ?rest)))"
      by (simp add: named)
    from room_add [OF this] have
      rm: "room (methods_seq (db conn)) (length (row_methods fieldnames row))" and
      rm': "room (methods_seq (db conn) + length (row_methods fieldnames row))
              (length (concat (map (row_methods fieldnames) ?rest)))"
      by simp_all
    define conn1 where "conn1 = conn\<lparr>db := (db conn)\<lparr>contacts := contacts (db conn) @
        [\<lparr>c_id = ?cid, c_name = ?name, c_address = row_address fieldnames row, c_is_favorite = 0\<rparr>],
        contacts_seq := ?cid\<rparr>\<rparr>"
    have addr: "encodable_opt (row_address fieldnames row)"
      by (simp add: encodable_opt_def row_address_def encodable_field [OF enc])
    have ic: "sql_insert_contact conn ?name
        (if field fieldnames row col_address \<noteq> [] then Some (field fieldnames row col_address) else None)
        = Inr (conn1, ?cid)"
      using addr below
      by (simp add: sql_insert_contact_Inr encodable_field [OF enc] conn1_def row_address_def)
    have fk: "\<not> foreign_keys conn1" using Cons.prems(1) by (simp add: conn1_def)
    have seq1: "methods_seq (db conn1) = methods_seq (db conn)" by (simp add: conn1_def)
    let ?p = "tagged ''phone'' (field fieldnames row col_phone)"
    let ?e = "tagged ''email'' (field fieldnames row col_email)"
    let ?a = "tagged ''address'' (field fieldnames row col_address)"
    have rows: "row_methods fieldnames row = ?p @ ?e @ ?a" by (simp add: row_methods_def)
    from rm have "room (methods_seq (db conn1)) (length ?p + (length ?e + length ?a))"
      by (simp add: rows seq1)
    from room_add [OF this] have rp: "room (methods_seq (db conn1)) (length ?p)"
      and "room (methods_seq (db conn1) + length ?p) (length ?e + length ?a)" by simp_all
    from room_add [OF this(2)] have re: "room (methods_seq (db conn1) + length ?p) (length ?e)"
      and ra: "room (methods_seq (db conn1) + length ?p + length ?e) (length ?a)" by simp_all
    define conn2 where "conn2 = add_rows conn1 ?cid ?p"
    define conn3 where "conn3 = add_rows conn2 ?cid ?e"
    define conn4 where "conn4 = add_rows conn3 ?cid ?a"
    have i2: "insert_if conn1 ?cid ''phone'' (field fieldnames row col_phone) = Inr conn2"
      unfolding conn2_def by (rule insert_if_tagged [OF fk id encodable_field [OF enc] rp])
    have i3: "insert_if conn2 ?cid ''email'' (field fieldnames row col_email) = Inr conn3"
      unfolding conn3_def
      by (rule insert_if_tagged [OF _ id encodable_field [OF enc]]) (use fk re in \<open>simp_all add: conn2_def\<close>)
    have i4: "insert_if conn3 ?cid ''address'' (field fieldnames row col_address) = Inr conn4"
      unfolding conn4_def
      by (rule insert_if_tagged [OF _ id encodable_field [OF enc]])
        (use fk ra in \<open>simp_all add: conn3_def conn2_def\<close>)
    have c4: "conn4 = add_rows conn1 ?cid (row_methods fieldnames row)"
      by (simp add: conn4_def conn3_def conn2_def add_rows_append rows)
    have fk4: "\<not> foreign_keys conn4" using fk by (simp add: c4)
    have db4: "db conn4 = created_store (db conn) ?name (row_address fieldnames row)
        (row_methods fieldnames row)"
      by (simp add: c4 conn1_def add_rows_def created_store_def)
    have upd: "conn4\<lparr>db := x\<rparr> = conn\<lparr>db := x\<rparr>" for x
      by (simp add: c4 conn1_def add_rows_def)
    have rc4: "room (contacts_seq (db conn4)) (length ?rest)"
      using room_Suc [OF rc] by (simp add: db4 created_store_def)
    have rm4: "room (methods_seq (db conn4)) (length (concat (map (row_methods fieldnames) ?rest)))"
      using rm' by (simp add: db4 created_store_def)
    have "import_rows fieldnames conn count (row # records) =
            import_rows fieldnames conn4 (count + 1) records"
      unfolding import_rows_keep [OF ne False] by (simp add: ic i2 i3 i4)
    also have "\<dots> = Inr (conn4\<lparr>db := imported fieldnames (db conn4) ?rest\<rparr>,
                count + 1 + length ?rest)"
      by (rule Cons.IH [OF fk4 dec rc4 rm4])
    finally show ?thesis
      by (simp add: named db4 upd)
  qed
qed

lemma method_key_method_rows:
  "map method_key (method_rows seq cid ps) = map (\<lambda>(t, v). (cid, t, v)) ps"
  by (induction ps arbitrary: seq) (auto simp: method_key_def)

lemma imported_closed_form:
  "contacts (imported fieldnames s rows) =
     contacts s @ map (imported_contact fieldnames) (enumerate (Suc (contacts_seq s)) rows) \<and>
   map method_key (contact_methods (imported fieldnames s rows)) =
     map method_key (contact_methods s) @
     concat (map (imported_methods fieldnames) (enumerate (Suc (contacts_seq s)) rows))"
proof (induction rows arbitrary: s)
  case Nil
  show ?case by simp
next
  case (Cons row rows)
  let ?s1 = "created_store s (field fieldnames row col_name) (row_address fieldnames row)
          (row_methods fieldnames row)"
  have seq: "contacts_seq ?s1 = Suc (contacts_seq s)"
    by (simp add: created_store_def)
  have c: "contacts ?s1 = contacts s @ [imported_contact fieldnames (Suc (contacts_seq s), row)]"
    by (simp add: created_store_def imported_contact_def)
  have m: "map method_key (contact_methods ?s1) =
      map method_key (contact_methods s) @ imported_methods fieldnames (Suc (contacts_seq s), row)"
    by (simp add: created_store_def imported_methods_def method_key_method_rows)
  show ?case
    using Cons.IH [of ?s1] by (simp add: seq c m)
qed

text \<open>
  Claim C8. An import of a \<open>.csv\<close> upload whose header has the four required columns
  succeeds and reports the number of records whose trimmed name is not empty. Those
  records, in order, and no others, each add one contact with the next id, the trimmed
  name, the trimmed address (or \<open>NULL\<close> when it is empty) and the favorite flag 0, and for
  that contact one method per non-empty phone, email and address, in this order. The
  rows that were stored before stay. The upload was decoded from UTF-8, and the two
  tables have room for the new rows.
\<close>

theorem import_inserts_named_rows:
  assumes "filename \<noteq> []" and "endswith (lower filename) (ustr ''.csv'')"
    and "set required_fields \<subseteq> set fieldnames"
    and "decoded records"
    and "room (contacts_seq s) (length (named_rows fieldnames records))"
    and "room (methods_seq s)
           (length (concat (map (row_methods fieldnames) (named_rows fieldnames records))))"
  shows "\<exists>s'. import_contacts s (Some (filename, Csv (Some fieldnames) records)) =
                (Inr (length (named_rows fieldnames records)), s') \<and>
           contacts s' =
             contacts s @ map (imported_contact fieldnames)
                              (enumerate (Suc (contacts_seq s)) (named_rows fieldnames records)) \<and>
           map method_key (contact_methods s') =
             map method_key (contact_methods s) @
             concat (map (imported_methods fieldnames)
                         (enumerate (Suc (contacts_seq s)) (named_rows fieldnames records)))"
proof -
  have "import_rows fieldnames (connect s) 0 records =
          Inr ((connect s)\<lparr>db := imported fieldnames s (named_rows fieldnames records)\<rparr>,
               length (named_rows fieldnames records))"
    using import_rows_imported [of "connect s" records fieldnames 0] assms(4,5,6) by simp
  then have "import_contacts s (Some (filename, Csv (Some fieldnames) records)) =
          (Inr (length (named_rows fieldnames records)),
           imported fieldnames s (named_rows fieldnames records))"
    using assms(1,2,3) by (simp add: import_contacts_def commit_def)
  then show ?thesis
    using imported_closed_form [of fieldnames s "named_rows fieldnames records"] by simp
qed

theorem import_inserts_named_rows_witness:
  "ustr ''book.CSV'' \<noteq> [] \<and>
   endswith (lower (ustr ''book.CSV'')) (ustr ''.csv'') \<and>
   set required_fields \<subseteq> set sample_header \<and>
   decoded sample_records \<and>
   room (contacts_seq init_db) (length (named_rows sample_header sample_records)) \<and>
   room (methods_seq init_db)
     (length (concat (map (row_methods sample_header) (named_rows sample_header sample_records)))) \<and>
   (\<exists>s'. import_contacts init_db (Some (ustr ''book.CSV'', Csv (Some sample_header) sample_records)) =
            (Inr 2, s') \<and>
      contacts s' =
        [\<lparr>c_id = 1, c_name = ustr ''Alice'', c_address = Some (ustr ''1 Main St''), c_is_favorite = 0\<rparr>,
         \<lparr>c_id = 2, c_name = ustr ''Bob'', c_address = None, c_is_favorite = 0\<rparr>] \<and>
      map method_key (contact_methods s') =
        [(1, ustr ''phone'', ustr ''555-1111''), (1, ustr ''email'', ustr ''a@x.com''),
         (1, ustr ''address'', ustr ''1 Main St''), (2, ustr ''email'', ustr ''b@x.com'')])"
proof -
  have h1: "ustr ''book.CSV'' \<noteq> []" by (simp add: ustr_def)
  have h2: "endswith (lower (ustr ''book.CSV'')) (ustr ''.csv'')"
    by (simp add: endswith_def lower_def ustr_def)
  have h3: "set required_fields \<subseteq> set sample_header"
    by (simp add: required_fields_def sample_header_def)
  have h4: "decoded sample_records"
    by (simp add: decoded_def sample_records_def encodable_ustr)
  have cols: "col_name \<noteq> col_phone" "col_name \<noteq> col_email" "col_name \<noteq> col_address"
    "col_phone \<noteq> col_email" "col_phone \<noteq> col_address" "col_email \<noteq> col_address"
    by (simp_all add: col_name_def col_phone_def col_email_def col_address_def)
  have f: "field sample_header [a, b, c, d] col_name = strip a"
    "field sample_header [a, b, c, d] col_phone = strip b"
    "field sample_header [a, b, c, d] col_email = strip c"
    "field sample_header [a, b, c, d] col_address = strip d" for a b c d
    using cols by (auto simp: field_def row_get_def sample_header_def)
  have st: "strip (ustr ''Alice'') = ustr ''Alice''" "strip (ustr ''555-1111'') = ustr ''555-1111''"
    "strip (ustr ''a@x.com'') = ustr ''a@x.com''" "strip (ustr ''1 Main St'') = ustr ''1 Main St''"
    "strip (ustr '' '') = []" "strip (ustr ''Bob'') = ustr ''Bob''" "strip [] = []"
    "strip (ustr ''b@x.com'') = ustr ''b@x.com''"
    by (simp_all add: strip_def isspace_def ustr_def)
  have nz: "ustr ''Alice'' \<noteq> []" "ustr ''Bob'' \<noteq> []" "ustr ''555-1111'' \<noteq> []"
    "ustr ''a@x.com'' \<noteq> []" "ustr ''1 Main St'' \<noteq> []" "ustr ''b@x.com'' \<noteq> []"
    by (simp_all add: ustr_def)
  have rows: "named_rows sample_header sample_records =
      [[ustr ''Alice'', ustr ''555-1111'', ustr ''a@x.com'', ustr ''1 Main St''],
       [ustr ''Bob'', [], ustr ''b@x.com'', []]]"
    by (simp add: named_rows_def sample_records_def f st nz)
  have h5: "room (contacts_seq init_db) (length (named_rows sample_header sample_records))"
    unfolding rows by (simp add: room_def max_rowid_def init_db_def)
  have h6: "room (methods_seq init_db)
     (length (concat (map (row_methods sample_header) (named_rows sample_header sample_records))))"
    unfolding rows by (simp add: room_def max_rowid_def init_db_def row_methods_def tagged_def f st nz)
  from import_inserts_named_rows [OF h1 h2 h3 h4 h5 h6]
  obtain s' where "import_contacts init_db (Some (ustr ''book.CSV'', Csv (Some sample_header) sample_records)) =
            (Inr 2, s')"
    "contacts s' =
        [\<lparr>c_id = 1, c_name = ustr ''Alice'', c_address = Some (ustr ''1 Main St''), c_is_favorite = 0\<rparr>,
         \<lparr>c_id = 2, c_name = ustr ''Bob'', c_address = None, c_is_favorite = 0\<rparr>]"
    "map method_key (contact_methods s') =
        [(1, ustr ''phone'', ustr ''555-1111''), (1, ustr ''email'', ustr ''a@x.com''),
         (1, ustr ''address'', ustr ''1 Main St''), (2, ustr ''email'', ustr ''b@x.com'')]"
    unfolding rows
    by (auto simp: init_db_def imported_contact_def imported_methods_def row_methods_def
        row_address_def tagged_def f st nz)
  with h1 h2 h3 h4 h5 h6 show ?thesis by - (intro conjI exI, assumption+)
qed

end
